theory Spec2Isabelle
  imports Complex_Main "HOL-Library.Multiset" "HOL-Library.Log_Nat"
begin

section \<open>Exceptions as values\<close>

text \<open>
  The notebook never catches an exception, so every raise ends the run. The exceptions
  that the modelled statements can raise are the four below: \<open>AttributeError\<close> when a
  method is called on the \<open>None\<close> that the structure parser returns for a string it cannot
  parse, \<open>IndexError\<close> when a tensor or a list is indexed out of range, \<open>RuntimeError\<close>
  when a tensor of dtype long is built from an integer outside the 64-bit range, and
  \<open>FileNotFoundError\<close> when a file that is read or copied does not exist.
\<close>

datatype error = AttributeError | IndexError | RuntimeError | FileNotFoundError

definition andthen :: "error + 'a \<Rightarrow> ('a \<Rightarrow> error + 'b) \<Rightarrow> error + 'b" where
  "andthen r f = (case r of Inl e \<Rightarrow> Inl e | Inr v \<Rightarrow> f v)"


section \<open>What the chemistry toolkit hands to the notebook\<close>

text \<open>
  The notebook reads a parsed molecule only through the toolkit's accessors. An atom is
  the record of what \<open>GetAtomicNum\<close>, \<open>GetDegree\<close>, \<open>GetFormalCharge\<close>,
  \<open>GetHybridization\<close> (the integer value of the toolkit's enumeration) and
  \<open>GetIsAromatic\<close> return for it; a bond is the record of what \<open>GetBeginAtomIdx\<close>,
  \<open>GetEndAtomIdx\<close>, \<open>GetBondTypeAsDouble\<close> and \<open>GetIsAromatic\<close> return. The bond orders
  the toolkit reports are whole or half numbers, exactly representable as doubles, so a
  rational holds them without loss.
\<close>

record atom =
  GetAtomicNum :: int
  GetDegree :: int
  GetFormalCharge :: int
  GetHybridization :: int
  GetIsAromatic :: bool

record bond =
  GetBeginAtomIdx :: nat
  GetEndAtomIdx :: nat
  GetBondTypeAsDouble :: rat
  BondGetIsAromatic :: bool

record mol =
  GetAtoms :: "atom list"
  GetBonds :: "bond list"

definition GetNumAtoms :: "mol \<Rightarrow> nat" where
  "GetNumAtoms m = length (GetAtoms m)"

text \<open>
  The invariants of a molecule graph of the toolkit: a bond joins two different atoms of
  the molecule, no two bonds join the same pair of atoms, and the atom count is far below
  the range where \<open>source * node_count + destination\<close> leaves the 64-bit integers.
\<close>

definition bond_ends :: "bond \<Rightarrow> nat \<times> nat" where
  "bond_ends b = (min (GetBeginAtomIdx b) (GetEndAtomIdx b), max (GetBeginAtomIdx b) (GetEndAtomIdx b))"

definition wf_mol :: "mol \<Rightarrow> bool" where
  "wf_mol m \<longleftrightarrow>
     GetNumAtoms m < 2 ^ 31 \<and>
     list_all (\<lambda>b. GetBeginAtomIdx b < GetNumAtoms m \<and> GetEndAtomIdx b < GetNumAtoms m \<and>
                   GetBeginAtomIdx b \<noteq> GetEndAtomIdx b) (GetBonds m) \<and>
     distinct (map bond_ends (GetBonds m))"

text \<open>
  \<open>Chem.rdmolops.GetAdjacencyMatrix\<close>: the square 0/1 matrix over the atoms with a 1
  exactly where a bond joins the two atoms, in either direction.
\<close>

definition bonded :: "mol \<Rightarrow> nat \<Rightarrow> nat \<Rightarrow> bool" where
  "bonded m i j = list_ex (\<lambda>b. (GetBeginAtomIdx b = i \<and> GetEndAtomIdx b = j) \<or>
                              (GetBeginAtomIdx b = j \<and> GetEndAtomIdx b = i)) (GetBonds m)"

definition GetAdjacencyMatrix :: "mol \<Rightarrow> int list list" where
  "GetAdjacencyMatrix m =
     map (\<lambda>i. map (\<lambda>j. if bonded m i j then 1 else 0) [0..<GetNumAtoms m]) [0..<GetNumAtoms m]"


section \<open>Tensors of dtype long\<close>

text \<open>
  A two-dimensional tensor is the list of its rows. \<open>torch.empty\<close> allocates without
  initialising: the function \<open>uninit\<close> stands for whatever the memory holds. Writing
  \<open>t[i][j] = v\<close> outside the tensor raises \<open>IndexError\<close>, and so does selecting with an
  index tensor that has an entry outside the indexed dimension.
\<close>

definition torch_empty :: "(nat \<Rightarrow> nat \<Rightarrow> int) \<Rightarrow> nat \<Rightarrow> nat \<Rightarrow> int list list" where
  "torch_empty uninit n c = map (\<lambda>i. map (\<lambda>j. uninit i j) [0..<c]) [0..<n]"

definition setitem :: "int list list \<Rightarrow> nat \<Rightarrow> nat \<Rightarrow> int \<Rightarrow> error + int list list" where
  "setitem t i j v =
     (if i < length t \<and> j < length (t ! i) then Inr (t[i := (t ! i)[j := v]]) else Inl IndexError)"

definition numel :: "int list list \<Rightarrow> nat" where
  "numel t = sum_list (map length t)"

definition index_select :: "'a list \<Rightarrow> nat list \<Rightarrow> error + 'a list" where
  "index_select xs perm =
     (if list_all (\<lambda>p. p < length xs) perm then Inr (map (\<lambda>p. xs ! p) perm) else Inl IndexError)"

text \<open>Arithmetic on 64-bit signed integers wraps around.\<close>

definition wrap64 :: "int \<Rightarrow> int" where
  "wrap64 k = (k + 2 ^ 63) mod 2 ^ 64 - 2 ^ 63"

text \<open>
  \<open>argsort\<close> is not stable unless asked to be, so the notebook may rely only on this:
  the result is a permutation of the positions that lists the keys in non-decreasing order.
  The conversion takes the sorting routine as a parameter; \<open>stable_argsort\<close> is one such
  routine.
\<close>

definition is_argsort :: "int list \<Rightarrow> nat list \<Rightarrow> bool" where
  "is_argsort ks perm \<longleftrightarrow> mset perm = mset [0..<length ks] \<and> sorted (map (\<lambda>p. ks ! p) perm)"

definition argsort_spec :: "(int list \<Rightarrow> nat list) \<Rightarrow> bool" where
  "argsort_spec argsort \<longleftrightarrow> (\<forall>ks. is_argsort ks (argsort ks))"

definition stable_argsort :: "int list \<Rightarrow> nat list" where
  "stable_argsort ks = map snd (sort_key fst (zip ks [0..<length ks]))"

text \<open>
  \<open>torch_geometric.utils.dense_to_sparse\<close> stacks the coordinates of the non-zero entries
  of the matrix, which \<open>nonzero\<close> lists row by row and, within a row, column by column.
\<close>

definition nonzero :: "int list list \<Rightarrow> (nat \<times> nat) list" where
  "nonzero t =
     concat (map (\<lambda>i. map (\<lambda>j. (i, j)) (filter (\<lambda>j. t ! i ! j \<noteq> 0) [0..<length (t ! i)]))
                 [0..<length t])"

definition dense_to_sparse :: "int list list \<Rightarrow> int list list" where
  "dense_to_sparse adj =
     (let index = nonzero adj in [map (\<lambda>p. int (fst p)) index, map (\<lambda>p. int (snd p)) index])"


section \<open>MyDataset.process: one row\<close>

subsection \<open>Node features\<close>

definition atom_features :: "int list list \<Rightarrow> nat \<Rightarrow> atom \<Rightarrow> error + int list list" where
  "atom_features x i a =
     andthen (setitem x i 0 (GetAtomicNum a)) (\<lambda>x.
     andthen (setitem x i 1 (GetDegree a)) (\<lambda>x.
     andthen (setitem x i 2 (GetFormalCharge a)) (\<lambda>x.
     andthen (setitem x i 3 (GetHybridization a)) (\<lambda>x.
     setitem x i 4 (if GetIsAromatic a then 1 else 0)))))"

fun atom_loop :: "int list list \<Rightarrow> nat \<Rightarrow> atom list \<Rightarrow> error + int list list" where
  "atom_loop x i [] = Inr x"
| "atom_loop x i (a # rest) = andthen (atom_features x i a) (\<lambda>x. atom_loop x (Suc i) rest)"

definition node_features :: "(nat \<Rightarrow> nat \<Rightarrow> int) \<Rightarrow> mol \<Rightarrow> error + int list list" where
  "node_features uninit m = atom_loop (torch_empty uninit (GetNumAtoms m) 5) 0 (GetAtoms m)"

subsection \<open>Edges with attributes\<close>

text \<open>\<open>int\<close> of a float truncates towards zero.\<close>

definition py_int :: "rat \<Rightarrow> int" where
  "py_int q = (if 0 \<le> q then \<lfloor>q\<rfloor> else \<lceil>q\<rceil>)"

definition bond_attr :: "bond \<Rightarrow> int" where
  "bond_attr b = (if BondGetIsAromatic b then 4 else py_int (GetBondTypeAsDouble b))"

fun bond_loop :: "(int \<times> int) list \<Rightarrow> int list \<Rightarrow> bond list \<Rightarrow> (int \<times> int) list \<times> int list" where
  "bond_loop edge_indices edge_attrs [] = (edge_indices, edge_attrs)"
| "bond_loop edge_indices edge_attrs (b # rest) =
     (let atom1 = int (GetBeginAtomIdx b);
          atom2 = int (GetEndAtomIdx b);
          attr = bond_attr b
      in bond_loop (edge_indices @ [(atom1, atom2), (atom2, atom1)]) (edge_attrs @ [attr, attr]) rest)"

text \<open>
  \<open>torch.tensor(edge_indices).t().to(torch.long).view(2, -1)\<close>: row 0 holds the sources,
  row 1 the destinations; an empty list gives two empty rows.
\<close>

definition as_edge_index :: "(int \<times> int) list \<Rightarrow> int list list" where
  "as_edge_index edge_indices = [map fst edge_indices, map snd edge_indices]"

definition unsqueeze1 :: "int list \<Rightarrow> int list list" where
  "unsqueeze1 edge_attrs = map (\<lambda>a. [a]) edge_attrs"

definition sort_keys :: "int list list \<Rightarrow> nat \<Rightarrow> int list" where
  "sort_keys edge_index n =
     map (\<lambda>(s, d). wrap64 (wrap64 (s * int n) + d)) (zip (edge_index ! 0) (edge_index ! 1))"

definition sort_edges ::
  "(int list \<Rightarrow> nat list) \<Rightarrow> nat \<Rightarrow> int list list \<Rightarrow> int list list \<Rightarrow> error + int list list \<times> int list list" where
  "sort_edges argsort n edge_index edge_attr =
     (if numel edge_index > 0 then
        (let perm = argsort (sort_keys edge_index n) in
         andthen (index_select (edge_index ! 0) perm) (\<lambda>row0.
         andthen (index_select (edge_index ! 1) perm) (\<lambda>row1.
         andthen (index_select edge_attr perm) (\<lambda>edge_attr'.
         Inr ([row0, row1], edge_attr')))))
      else Inr (edge_index, edge_attr))"

definition edges_with_attr ::
  "(int list \<Rightarrow> nat list) \<Rightarrow> mol \<Rightarrow> nat \<Rightarrow> error + int list list \<times> int list list" where
  "edges_with_attr argsort m n =
     (let (edge_indices, edge_attrs) = bond_loop [] [] (GetBonds m)
      in sort_edges argsort n (as_edge_index edge_indices) (unsqueeze1 edge_attrs))"

subsection \<open>The graph record of a row\<close>

record row =
  row_smiles :: string
  row_labels :: int

record Data =
  data_x :: "int list list"
  data_edge_index :: "int list list"
  data_y :: "int list list"
  data_smiles :: string
  data_edge_attr :: "int list list option"

record toolkit =
  MolFromSmiles :: "string \<Rightarrow> mol option"
  argsort :: "int list \<Rightarrow> nat list"
  uninit :: "nat \<Rightarrow> nat \<Rightarrow> int"

text \<open>
  \<open>torch.tensor([[label]], dtype=torch.long)\<close>: a one-by-one tensor holding the label, or
  \<open>RuntimeError\<close> if the label does not fit a signed 64-bit integer. The notebook builds
  it after the node features and the edges of the row.
\<close>

definition fits_int64 :: "int \<Rightarrow> bool" where
  "fits_int64 k \<longleftrightarrow> - (2 ^ 63) \<le> k \<and> k < 2 ^ 63"

definition label_tensor :: "int \<Rightarrow> error + int list list" where
  "label_tensor label = (if fits_int64 label then Inr [[label]] else Inl RuntimeError)"

definition process_row :: "toolkit \<Rightarrow> bool \<Rightarrow> row \<Rightarrow> error + Data" where
  "process_row tk create_edge_attr r =
     (let smiles = row_smiles r; label = row_labels r in
      case MolFromSmiles tk smiles of
        None \<Rightarrow> Inl AttributeError
      | Some m \<Rightarrow>
          andthen (node_features (uninit tk) m) (\<lambda>x.
          andthen (if create_edge_attr
                   then andthen (edges_with_attr (argsort tk) m (length x))
                          (\<lambda>(edge_index, edge_attr). Inr (edge_index, Some edge_attr))
                   else Inr (dense_to_sparse (GetAdjacencyMatrix m), None))
            (\<lambda>(edge_index, edge_attr).
               andthen (label_tensor label) (\<lambda>label.
                 Inr \<lparr>data_x = x, data_edge_index = edge_index, data_y = label,
                      data_smiles = smiles, data_edge_attr = edge_attr\<rparr>))))"


section \<open>MyDataset.process: the whole table, and the cache file\<close>

text \<open>
  \<open>data_list\<close> starts as one \<open>None\<close> per row of the table and is filled by index while the
  rows are visited in order. Assigning outside the list raises \<open>IndexError\<close>. \<open>collate\<close>
  packs the records into one storage object from which indexing gives each record back;
  the model keeps the list of records. \<open>collate\<close> reads the first record of the list to
  find the record class, so an empty list raises \<open>IndexError\<close>, and it fails on a slot that
  was never filled.
\<close>

fun row_loop :: "toolkit \<Rightarrow> bool \<Rightarrow> Data option list \<Rightarrow> nat \<Rightarrow> row list \<Rightarrow> error + Data option list" where
  "row_loop tk create_edge_attr data_list idx [] = Inr data_list"
| "row_loop tk create_edge_attr data_list idx (r # rest) =
     andthen (process_row tk create_edge_attr r) (\<lambda>d.
       if idx < length data_list
       then row_loop tk create_edge_attr (data_list[idx := Some d]) (Suc idx) rest
       else Inl IndexError)"

definition collate :: "Data option list \<Rightarrow> error + Data list" where
  "collate data_list =
     (if data_list = [] then Inl IndexError
      else if list_all (\<lambda>d. d \<noteq> None) data_list then Inr (map the data_list)
      else Inl AttributeError)"

text \<open>
  The three files the class touches: \<open>data.csv\<close> in the working directory, its copy
  \<open>raw/data.csv\<close> under the dataset root, and the cache \<open>processed/processed_data.pt\<close>.
  A file is absent (\<open>None\<close>) or holds a table, respectively a collection. A method returns
  the exception it raised, if any, together with the files as it left them.
\<close>

record files =
  cwd_data_csv :: "row list option"
  raw_data_csv :: "row list option"
  processed_data_pt :: "Data list option"

definition download :: "files \<Rightarrow> error option \<times> files" where
  "download fs =
     (case cwd_data_csv fs of
        None \<Rightarrow> (Some FileNotFoundError, fs)
      | Some table \<Rightarrow> (None, fs\<lparr>raw_data_csv := Some table\<rparr>))"

definition process :: "toolkit \<Rightarrow> bool \<Rightarrow> files \<Rightarrow> error option \<times> files" where
  "process tk create_edge_attr fs =
     (case raw_data_csv fs of
        None \<Rightarrow> (Some FileNotFoundError, fs)
      | Some df \<Rightarrow>
          (case andthen (row_loop tk create_edge_attr (replicate (length df) None) 0 df) collate of
             Inl e \<Rightarrow> (Some e, fs)
           | Inr collection \<Rightarrow> (None, fs\<lparr>processed_data_pt := Some collection\<rparr>)))"

text \<open>
  \<open>MyDataset.__init__\<close> stores the flag, runs the constructor of the library's in-memory
  dataset and loads the cache. As the notebook describes that constructor, \<open>download\<close> is
  called only if the raw file is not in the raw directory, and \<open>process\<close> only if the
  processed file is not present; the raw file is looked for first.
\<close>

definition MyDataset_init :: "toolkit \<Rightarrow> bool \<Rightarrow> files \<Rightarrow> (error + Data list) \<times> files" where
  "MyDataset_init tk create_edge_attr fs =
     (case (if raw_data_csv fs = None then download fs else (None, fs)) of
        (Some e, fs1) \<Rightarrow> (Inl e, fs1)
      | (None, fs1) \<Rightarrow>
          (case (if processed_data_pt fs1 = None then process tk create_edge_attr fs1 else (None, fs1)) of
             (Some e, fs2) \<Rightarrow> (Inl e, fs2)
           | (None, fs2) \<Rightarrow>
               (case processed_data_pt fs2 of
                  None \<Rightarrow> (Inl FileNotFoundError, fs2)
                | Some collection \<Rightarrow> (Inr collection, fs2))))"


section \<open>The training cell: shuffle and split\<close>

text \<open>
  \<open>len(dataset)*.8\<close> is a product of doubles. The double nearest to 0.8 is
  \<open>3602879701896397 / 2 ^ 52\<close>; a length below \<open>2 ^ 53\<close> converts to a double exactly, and
  the product is the exact product rounded to 53 significant bits, to nearest with ties to
  the even significand. \<open>int\<close> then truncates.
\<close>

definition round_to_53_bits :: "nat \<Rightarrow> nat" where
  "round_to_53_bits p =
     (let b = floorlog 2 p in
      if b \<le> 53 then p
      else (let s = b - 53; q = p div 2 ^ s; r = p mod 2 ^ s
            in (if 2 ^ s < 2 * r \<or> (2 * r = 2 ^ s \<and> odd q) then q + 1 else q) * 2 ^ s))"

definition times_point_8 :: "nat \<Rightarrow> rat" where
  "times_point_8 n = of_nat (round_to_53_bits (n * 3602879701896397)) / 2 ^ 52"

definition split_index :: "nat \<Rightarrow> nat" where
  "split_index n = nat (py_int (times_point_8 n))"

definition train_set :: "'a list \<Rightarrow> 'a list" where
  "train_set dataset = take (split_index (length dataset)) dataset"

definition test_set :: "'a list \<Rightarrow> 'a list" where
  "test_set dataset = drop (split_index (length dataset)) dataset"

text \<open>
  \<open>dataset.shuffle()\<close> selects the records by a random permutation of the positions, the
  loop over the list recasts each record in place (\<open>cast\<close>), and the two slices follow.
\<close>

definition shuffle_and_split :: "nat list \<Rightarrow> ('a \<Rightarrow> 'b) \<Rightarrow> 'a list \<Rightarrow> error + 'b list \<times> 'b list" where
  "shuffle_and_split randperm cast dataset =
     andthen (index_select dataset randperm) (\<lambda>dataset.
       (let dataset = map cast dataset in Inr (train_set dataset, test_set dataset)))"


section \<open>Notions used to state the properties\<close>

text \<open>The feature row of an atom, in the column order of the node-feature table.\<close>

definition feature_row :: "atom \<Rightarrow> int list" where
  "feature_row a = [GetAtomicNum a, GetDegree a, GetFormalCharge a, GetHybridization a,
                    (if GetIsAromatic a then 1 else 0)]"

text \<open>The two directed pairs of every bond, in bond order, and the code of each.\<close>

definition bond_pairs :: "bond list \<Rightarrow> (nat \<times> nat) list" where
  "bond_pairs bs = concat (map (\<lambda>b. [(GetBeginAtomIdx b, GetEndAtomIdx b),
                                       (GetEndAtomIdx b, GetBeginAtomIdx b)]) bs)"

definition bond_codes :: "bond list \<Rightarrow> int list" where
  "bond_codes bs = concat (map (\<lambda>b. [bond_attr b, bond_attr b]) bs)"

definition ipair :: "nat \<times> nat \<Rightarrow> int \<times> int" where
  "ipair p = (int (fst p), int (snd p))"

text \<open>The composite key without wrap-around, and the keys as the 64-bit arithmetic gives them.\<close>

definition composite_key :: "nat \<Rightarrow> nat \<times> nat \<Rightarrow> nat" where
  "composite_key n p = fst p * n + snd p"

definition raw_keys :: "nat \<Rightarrow> (nat \<times> nat) list \<Rightarrow> int list" where
  "raw_keys n ps = map (\<lambda>p. wrap64 (wrap64 (int (fst p) * int n) + int (snd p))) ps"

text \<open>
  What the loop over the rows computes: the records of the rows in order, or the exception
  of the first row that raises.
\<close>

fun convert_rows :: "toolkit \<Rightarrow> bool \<Rightarrow> row list \<Rightarrow> error + Data list" where
  "convert_rows tk c [] = Inr []"
| "convert_rows tk c (r # rest) =
     andthen (process_row tk c r) (\<lambda>d. andthen (convert_rows tk c rest) (\<lambda>ds. Inr (d # ds)))"

text \<open>
  Three molecules as the toolkit parses them, a parser that knows only these, and a
  toolkit built from it: ethanol \<open>CCO\<close>, water \<open>O\<close> and benzene \<open>c1ccccc1\<close>, whose
  ring-closing bond runs from atom 5 back to atom 0.
\<close>

definition carbon :: "int \<Rightarrow> int \<Rightarrow> bool \<Rightarrow> atom" where
  "carbon deg hyb arom = \<lparr>GetAtomicNum = 6, GetDegree = deg, GetFormalCharge = 0,
                           GetHybridization = hyb, GetIsAromatic = arom\<rparr>"

definition oxygen :: "int \<Rightarrow> atom" where
  "oxygen deg = \<lparr>GetAtomicNum = 8, GetDegree = deg, GetFormalCharge = 0,
                  GetHybridization = 4, GetIsAromatic = False\<rparr>"

definition single_bond :: "nat \<Rightarrow> nat \<Rightarrow> bond" where
  "single_bond i j = \<lparr>GetBeginAtomIdx = i, GetEndAtomIdx = j, GetBondTypeAsDouble = 1,
                       BondGetIsAromatic = False\<rparr>"

definition aromatic_bond :: "nat \<Rightarrow> nat \<Rightarrow> bond" where
  "aromatic_bond i j = \<lparr>GetBeginAtomIdx = i, GetEndAtomIdx = j, GetBondTypeAsDouble = 3 / 2,
                         BondGetIsAromatic = True\<rparr>"

definition ethanol :: mol where
  "ethanol = \<lparr>GetAtoms = [carbon 1 4 False, carbon 2 4 False, oxygen 1],
               GetBonds = [single_bond 0 1, single_bond 1 2]\<rparr>"

definition water :: mol where
  "water = \<lparr>GetAtoms = [oxygen 0], GetBonds = []\<rparr>"

definition benzene :: mol where
  "benzene = \<lparr>GetAtoms = replicate 6 (carbon 2 3 True),
               GetBonds = [aromatic_bond 0 1, aromatic_bond 1 2, aromatic_bond 2 3,
                           aromatic_bond 3 4, aromatic_bond 4 5, aromatic_bond 5 0]\<rparr>"

definition example_parser :: "string \<Rightarrow> mol option" where
  "example_parser s =
     (if s = ''CCO'' then Some ethanol else if s = ''O'' then Some water
      else if s = ''c1ccccc1'' then Some benzene else None)"

definition example_toolkit :: toolkit where
  "example_toolkit = \<lparr>MolFromSmiles = example_parser, argsort = stable_argsort, uninit = (\<lambda>i j. 0)\<rparr>"


section \<open>The node-feature loop\<close>

lemma length5: "length (r::int list) = 5 \<Longrightarrow> \<exists>a b c d e. r = [a,b,c,d,e]"
  by (auto simp: length_Suc_conv eval_nat_numeral)

lemma atom_features_row:
  assumes "i < length x" "length (x ! i) = 5"
  shows "atom_features x i a = Inr (x[i := feature_row a])"
proof -
  obtain v0 v1 v2 v3 v4 where r: "x ! i = [v0, v1, v2, v3, v4]"
    using length5[OF assms(2)] by blast
  show ?thesis using assms(1) r
    by (simp add: atom_features_def setitem_def andthen_def feature_row_def)
qed

lemma atom_loop_rows:
  "i + length as = length x \<Longrightarrow> \<forall>r\<in>set x. length r = 5 \<Longrightarrow>
   atom_loop x i as = Inr (take i x @ map feature_row as)"
proof (induction as arbitrary: x i)
  case Nil
  then show ?case by simp
next
  case (Cons a as)
  have i: "i < length x" using Cons.prems(1) by simp
  have r: "length (x ! i) = 5" using Cons.prems(2) i by simp
  have f5: "length (feature_row a) = 5" by (simp add: feature_row_def)
  have rows: "\<forall>r\<in>set (x[i := feature_row a]). length r = 5"
    using Cons.prems(2) f5 by (auto dest!: set_update_subset_insert[THEN subsetD])
  have "atom_loop (x[i := feature_row a]) (Suc i) as
        = Inr (take (Suc i) (x[i := feature_row a]) @ map feature_row as)"
    using Cons.prems(1) rows by (intro Cons.IH) simp_all
  moreover have "take (Suc i) (x[i := feature_row a]) = take i x @ [feature_row a]"
    using i by (simp add: take_Suc_conv_app_nth)
  ultimately show ?case
    using atom_features_row[OF i r, of a] by (simp add: andthen_def)
qed

lemma node_features_rows: "node_features u m = Inr (map feature_row (GetAtoms m))"
  unfolding node_features_def
  by (subst atom_loop_rows) (auto simp: torch_empty_def GetNumAtoms_def)

section \<open>The bond loop and the sort\<close>

lemma bond_loop_eq:
  "bond_loop es cs bs = (es @ map ipair (bond_pairs bs), cs @ bond_codes bs)"
  by (induction bs arbitrary: es cs) (simp_all add: bond_pairs_def bond_codes_def ipair_def Let_def)

lemma length_bond_pairs: "length (bond_pairs bs) = 2 * length bs"
  by (induction bs) (simp_all add: bond_pairs_def)

lemma length_bond_codes: "length (bond_codes bs) = 2 * length bs"
  by (induction bs) (simp_all add: bond_codes_def)

lemma is_argsort_length: "is_argsort ks perm \<Longrightarrow> length perm = length ks"
  by (metis is_argsort_def size_mset length_upt diff_zero)

lemma is_argsort_set: "is_argsort ks perm \<Longrightarrow> set perm = {0..<length ks}"
  by (metis is_argsort_def set_mset_mset set_upt)

lemma index_select_ok:
  "set perm \<subseteq> {0..<length xs} \<Longrightarrow> index_select xs perm = Inr (map (\<lambda>p. xs ! p) perm)"
  by (auto simp: index_select_def list_all_iff)

lemma mset_permuted:
  "mset perm = mset [0..<length xs] \<Longrightarrow> mset (map (\<lambda>p. xs ! p) perm) = mset xs"
proof -
  assume a: "mset perm = mset [0..<length xs]"
  have "mset (map (\<lambda>p. xs ! p) perm) = image_mset (\<lambda>p. xs ! p) (mset perm)" by simp
  also have "\<dots> = mset (map (\<lambda>p. xs ! p) [0..<length xs])" using a by simp
  also have "\<dots> = mset xs" by (simp add: map_nth)
  finally show ?thesis .
qed

lemma sort_keys_as_edge_index:
  "sort_keys (as_edge_index (map ipair ps)) n = raw_keys n ps"
  by (simp add: sort_keys_def as_edge_index_def raw_keys_def zip_map_fst_snd ipair_def
        zip_map_map map_zip_map  case_prod_beta comp_def zip_same_conv_map)

lemma numel_as_edge_index: "numel (as_edge_index es) = 2 * length es"
  by (simp add: numel_def as_edge_index_def)

lemma select_map: "set perm \<subseteq> {0..<length xs} \<Longrightarrow>
   map (\<lambda>p. map f xs ! p) perm = map f (map (\<lambda>p. xs ! p) perm)"
  by (auto simp: subset_iff)

lemma sort_edges_eq:
  assumes "is_argsort (raw_keys n ps) (srt (raw_keys n ps))" "length cs = length ps"
  shows "sort_edges srt n (as_edge_index (map ipair ps)) (unsqueeze1 cs) =
         (if ps = [] then Inr (as_edge_index [], [])
          else Inr (as_edge_index (map ipair (map (\<lambda>p. ps ! p) (srt (raw_keys n ps)))),
              unsqueeze1 (map (\<lambda>p. cs ! p) (srt (raw_keys n ps)))))"
proof (cases "ps = []")
  case True
  then show ?thesis using assms(2)
    by (simp add: sort_edges_def numel_as_edge_index unsqueeze1_def)
next
  case False
  let ?perm = "srt (raw_keys n ps)"
  have s: "set ?perm = {0..<length ps}"
    using is_argsort_set[OF assms(1)] by (simp add: raw_keys_def)
  have s0: "set ?perm \<subseteq> {0..<length (map fst (map ipair ps))}"
    and s1: "set ?perm \<subseteq> {0..<length (map snd (map ipair ps))}"
    and s2: "set ?perm \<subseteq> {0..<length (unsqueeze1 cs)}"
    using s assms(2) by (simp_all add: unsqueeze1_def)
  have sp: "set ?perm \<subseteq> {0..<length ps}" and sc: "set ?perm \<subseteq> {0..<length cs}"
   and sip: "set ?perm \<subseteq> {0..<length (map ipair ps)}"
    using s assms(2) by simp_all
  have n: "numel (as_edge_index (map ipair ps)) > 0"
    using False by (simp add: numel_as_edge_index)
  show ?thesis
    using False n
    apply (simp only: sort_edges_def if_True if_False Let_def sort_keys_as_edge_index)
    apply (simp only: as_edge_index_def nth_Cons_0 nth_Cons_Suc One_nat_def
            index_select_ok[OF s0] index_select_ok[OF s1] index_select_ok[OF s2] andthen_def sum.case)
    apply (simp only: unsqueeze1_def select_map[OF sp] select_map[OF sc] select_map[OF sip])
    done
qed

section \<open>Composite keys of a well-formed molecule\<close>

lemma wrap64_of_nat: "k < 2 ^ 63 \<Longrightarrow> wrap64 (int k) = int k"
proof -
  assume "k < 2 ^ 63"
  then have "int k < int (2 ^ 63)" by (simp only: of_nat_less_iff)
  then show ?thesis by (simp add: wrap64_def)
qed

lemma raw_keys_exact:
  assumes "n < 2 ^ 31" "\<forall>p\<in>set ps. fst p < n \<and> snd p < n"
  shows "raw_keys n ps = map (\<lambda>p. int (composite_key n p)) ps"
  unfolding raw_keys_def
proof (rule map_cong[OF refl])
  fix p assume "p \<in> set ps"
  then have s: "fst p < n" and d: "snd p < n" using assms(2) by auto
  have "fst p * n \<le> n * n" using s by simp
  also have "n * n \<le> 2 ^ 31 * 2 ^ 31" using assms(1) by (intro mult_mono) simp_all
  finally have b: "fst p * n \<le> 2 ^ 62" by simp
  have b1: "fst p * n < 2 ^ 63" using b by simp
  have b2: "fst p * n + snd p < 2 ^ 63" using b d assms(1) by simp
  have w1: "wrap64 (int (fst p) * int n) = int (fst p * n)"
    using wrap64_of_nat[OF b1] by simp
  have w2: "wrap64 (int (fst p * n) + int (snd p)) = int (fst p * n + snd p)"
    using wrap64_of_nat[OF b2] by simp
  show "wrap64 (wrap64 (int (fst p) * int n) + int (snd p)) = int (composite_key n p)"
    by (simp only: w1 w2 composite_key_def)
qed

lemma composite_key_inj: "inj_on (composite_key n) {p. fst p < n \<and> snd p < n}"
proof (rule inj_onI)
  fix p q assume p: "p \<in> {p. fst p < n \<and> snd p < n}" and q: "q \<in> {p. fst p < n \<and> snd p < n}"
    and e: "composite_key n p = composite_key n q"
  have "(fst p * n + snd p) div n = (fst q * n + snd q) div n"
    using e by (simp add: composite_key_def)
  then have f: "fst p = fst q" using p q by simp
  then have "snd p = snd q" using e by (simp add: composite_key_def)
  with f show "p = q" by (simp add: prod_eq_iff)
qed

lemma argsort_sorted_distinct_id:
  assumes "sorted ks" "distinct ks" "is_argsort ks perm"
  shows "perm = [0..<length ks]"
proof -
  have len: "length perm = length ks" by (rule is_argsort_length[OF assms(3)])
  have st: "set perm = {0..<length ks}" by (rule is_argsort_set[OF assms(3)])
  have m: "mset (map (\<lambda>p. ks ! p) perm) = mset ks"
    using assms(3) by (intro mset_permuted) (simp add: is_argsort_def)
  have "sort ks = map (\<lambda>p. ks ! p) perm"
    using m assms(3) by (intro properties_for_sort) (simp_all add: is_argsort_def)
  then have e: "map (\<lambda>p. ks ! p) perm = ks" using assms(1) by (simp add: sort_key_id_if_sorted)
  show ?thesis
  proof (rule nth_equalityI)
    show "length perm = length [0..<length ks]" using len by simp
  next
    fix i assume i: "i < length perm"
    then have pi: "perm ! i < length ks" using st by (metis atLeastLessThan_iff nth_mem)
    have "ks ! (perm ! i) = ks ! i" using e i by (metis nth_map)
    then have "perm ! i = i" using assms(2) pi i len by (simp add: nth_eq_iff_index_eq)
    then show "perm ! i = [0..<length ks] ! i" using i len by simp
  qed
qed

section \<open>Directed pairs and the adjacency matrix\<close>

lemma set_bond_pairs:
  "set (bond_pairs bs) = {(i, j). \<exists>b\<in>set bs. (GetBeginAtomIdx b = i \<and> GetEndAtomIdx b = j) \<or>
                                          (GetBeginAtomIdx b = j \<and> GetEndAtomIdx b = i)}"
  by (auto simp: bond_pairs_def)

lemma bond_pairs_in_range:
  "wf_mol m \<Longrightarrow> p \<in> set (bond_pairs (GetBonds m)) \<Longrightarrow> fst p < GetNumAtoms m \<and> snd p < GetNumAtoms m"
  by (auto simp: wf_mol_def set_bond_pairs list_all_iff)

lemma distinct_bond_pairs_aux:
  "\<forall>b\<in>set bs. GetBeginAtomIdx b \<noteq> GetEndAtomIdx b \<Longrightarrow> distinct (map bond_ends bs) \<Longrightarrow>
   distinct (bond_pairs bs)"
proof (induction bs)
  case Nil
  then show ?case by (simp add: bond_pairs_def)
next
  case (Cons b bs)
  have ih: "distinct (bond_pairs bs)" using Cons by simp
  have ne: "GetBeginAtomIdx b \<noteq> GetEndAtomIdx b" using Cons.prems(1) by simp
  have fresh: "bond_ends b \<notin> bond_ends ` set bs" using Cons.prems(2) by simp
  have n1: "(GetBeginAtomIdx b, GetEndAtomIdx b) \<notin> set (bond_pairs bs)"
  proof
    assume "(GetBeginAtomIdx b, GetEndAtomIdx b) \<in> set (bond_pairs bs)"
    then obtain b' where "b' \<in> set bs" "bond_ends b' = bond_ends b"
      by (auto simp: set_bond_pairs bond_ends_def min_def max_def)
    then show False using fresh by (metis image_eqI)
  qed
  have n2: "(GetEndAtomIdx b, GetBeginAtomIdx b) \<notin> set (bond_pairs bs)"
  proof
    assume "(GetEndAtomIdx b, GetBeginAtomIdx b) \<in> set (bond_pairs bs)"
    then obtain b' where "b' \<in> set bs" "bond_ends b' = bond_ends b"
      by (auto simp: set_bond_pairs bond_ends_def min_def max_def)
    then show False using fresh by (metis image_eqI)
  qed
  have "bond_pairs (b # bs) = (GetBeginAtomIdx b, GetEndAtomIdx b) # (GetEndAtomIdx b, GetBeginAtomIdx b) # bond_pairs bs"
    by (simp add: bond_pairs_def)
  then show ?case using ih ne n1 n2 by simp
qed

lemma distinct_bond_pairs: "wf_mol m \<Longrightarrow> distinct (bond_pairs (GetBonds m))"
  by (rule distinct_bond_pairs_aux) (auto simp: wf_mol_def list_all_iff)

lemma product_keys_sorted:
  "sorted_wrt (<) (map (composite_key n) (List.product [0..<k] [0..<n]))"
proof (induction k)
  case 0
  then show ?case by simp
next
  case (Suc k)
  have split: "List.product [0..<Suc k] [0..<n] = List.product [0..<k] [0..<n] @ map (Pair k) [0..<n]"
    by (simp add: product_concat_map)
  have last: "sorted_wrt (<) (map (composite_key n) (map (Pair k) [0..<n]))"
    by (simp add: sorted_wrt_map composite_key_def sorted_wrt_upt[unfolded sorted_wrt_iff_nth_less] sorted_wrt_iff_nth_less)
  have cross: "\<forall>a\<in>set (List.product [0..<k] [0..<n]). \<forall>b\<in>set (map (Pair k) [0..<n]).
        composite_key n a < composite_key n b"
  proof (intro ballI)
    fix a b assume a: "a \<in> set (List.product [0..<k] [0..<n])" and b: "b \<in> set (map (Pair k) [0..<n])"
    have "fst a * n + snd a < Suc (fst a) * n" using a by auto
    also have "\<dots> \<le> k * n" using a by (intro mult_le_mono1) auto
    also have "\<dots> \<le> fst b * n + snd b" using b by auto
    finally show "composite_key n a < composite_key n b" by (simp add: composite_key_def)
  qed
  show ?case
    unfolding split map_append sorted_wrt_append
    using Suc.IH last cross by auto
qed

lemma nonzero_adjacency:
  "nonzero (GetAdjacencyMatrix m) =
   filter (\<lambda>p. bonded m (fst p) (snd p)) (List.product [0..<GetNumAtoms m] [0..<GetNumAtoms m])"
proof -
  let ?N = "GetNumAtoms m"
  have "nonzero (GetAdjacencyMatrix m) =
        concat (map (\<lambda>i. map (Pair i) (filter (\<lambda>j. bonded m i j) [0..<?N])) [0..<?N])"
    unfolding nonzero_def GetAdjacencyMatrix_def
    by (auto intro!: arg_cong[where f=concat] map_cong filter_cong simp del: upt_Suc split: if_splits)
  also have "\<dots> = filter (\<lambda>p. bonded m (fst p) (snd p)) (List.product [0..<?N] [0..<?N])"
    by (simp add: product_concat_map filter_concat filter_map comp_def)
  finally show ?thesis .
qed

section \<open>A sorting routine that meets the requirement\<close>

lemma stable_argsort_is_argsort: "is_argsort ks (stable_argsort ks)"
proof -
  let ?zs = "zip ks [0..<length ks]"
  have m: "mset (stable_argsort ks) = mset [0..<length ks]"
  proof -
    have "mset (map snd (sort_key fst ?zs)) = mset (map snd ?zs)"
      by (simp only: mset_map mset_sort)
    moreover have "map snd ?zs = [0..<length ks]" by simp
    ultimately show ?thesis by (simp only: stable_argsort_def)
  qed
  have "map (\<lambda>p. ks ! p) (stable_argsort ks) = map fst (sort_key fst ?zs)"
    unfolding stable_argsort_def map_map
  proof (rule map_cong[OF refl])
    fix z assume "z \<in> set (sort_key fst ?zs)"
    then have "z \<in> set ?zs" by simp
    then show "((\<lambda>p. ks ! p) \<circ> snd) z = fst z"
      by (auto simp: set_zip)
  qed
  then have "sorted (map (\<lambda>p. ks ! p) (stable_argsort ks))" by simp
  with m show ?thesis by (simp add: is_argsort_def)
qed

lemma stable_argsort_spec: "argsort_spec stable_argsort"
  by (simp add: argsort_spec_def stable_argsort_is_argsort)

section \<open>The record of a row\<close>

lemma edges_with_attr_eq:
  assumes "argsort_spec srt"
  shows "\<exists>perm. mset perm = mset [0..<length (bond_pairs (GetBonds m))] \<and>
           sorted (map (\<lambda>p. raw_keys n (bond_pairs (GetBonds m)) ! p) perm) \<and>
           edges_with_attr srt m n =
             Inr (as_edge_index (map ipair (map (\<lambda>p. bond_pairs (GetBonds m) ! p) perm)),
                  unsqueeze1 (map (\<lambda>p. bond_codes (GetBonds m) ! p) perm))"
proof -
  let ?ps = "bond_pairs (GetBonds m)" and ?cs = "bond_codes (GetBonds m)"
  have len: "length ?cs = length ?ps" by (simp add: length_bond_pairs length_bond_codes)
  have a: "is_argsort (raw_keys n ?ps) (srt (raw_keys n ?ps))"
    using assms by (simp add: argsort_spec_def)
  have e: "edges_with_attr srt m n = sort_edges srt n (as_edge_index (map ipair ?ps)) (unsqueeze1 ?cs)"
    by (simp add: edges_with_attr_def bond_loop_eq)
  note se = sort_edges_eq[where srt=srt and n=n and ps="?ps" and cs="?cs", OF a len]
  show ?thesis
  proof (cases "?ps = []")
    case True
    then show ?thesis
      unfolding e se
      by (intro exI[of _ "[]"]) (simp add: unsqueeze1_def)
  next
    case False
    then show ?thesis
      unfolding e se
      using a by (intro exI[of _ "srt (raw_keys n ?ps)"]) (simp add: is_argsort_def raw_keys_def)
  qed
qed

lemma process_row_with_attr:
  assumes "MolFromSmiles tk (row_smiles r) = Some m"
    and "fits_int64 (row_labels r)"
    and "edges_with_attr (argsort tk) m (GetNumAtoms m) = Inr (ei, ea)"
  shows "process_row tk True r =
         Inr \<lparr>data_x = map feature_row (GetAtoms m), data_edge_index = ei, data_y = [[row_labels r]],
              data_smiles = row_smiles r, data_edge_attr = Some ea\<rparr>"
  using assms
  by (simp add: process_row_def node_features_rows andthen_def GetNumAtoms_def label_tensor_def)

lemma process_row_without_attr:
  assumes "MolFromSmiles tk (row_smiles r) = Some m" "fits_int64 (row_labels r)"
  shows "process_row tk False r =
         Inr \<lparr>data_x = map feature_row (GetAtoms m),
              data_edge_index = dense_to_sparse (GetAdjacencyMatrix m), data_y = [[row_labels r]],
              data_smiles = row_smiles r, data_edge_attr = None\<rparr>"
  using assms
  by (simp add: process_row_def node_features_rows andthen_def label_tensor_def)

section \<open>The example molecules\<close>

lemma example_parse [simp]:
  "MolFromSmiles example_toolkit ''CCO'' = Some ethanol"
  "MolFromSmiles example_toolkit ''O'' = Some water"
  "MolFromSmiles example_toolkit ''c1ccccc1'' = Some benzene"
  "MolFromSmiles example_toolkit ''C1CC'' = None"
  by (simp_all add: example_toolkit_def example_parser_def)

lemma example_argsort: "argsort_spec (argsort example_toolkit)"
  by (simp add: example_toolkit_def stable_argsort_spec)

lemma wf_ethanol: "wf_mol ethanol"
  by (simp add: wf_mol_def ethanol_def GetNumAtoms_def single_bond_def bond_ends_def)

lemma wf_water: "wf_mol water"
  by (simp add: wf_mol_def water_def GetNumAtoms_def)

lemma fits_int64_small [simp]: "fits_int64 0" "fits_int64 1"
  by (simp_all add: fits_int64_def)

lemma wf_benzene: "wf_mol benzene"
  by (simp add: wf_mol_def benzene_def GetNumAtoms_def aromatic_bond_def bond_ends_def)

lemma edges_ok:
  assumes "argsort_spec (argsort tk)" "MolFromSmiles tk (row_smiles r) = Some m"
    "fits_int64 (row_labels r)"
  obtains perm where "mset perm = mset [0..<length (bond_pairs (GetBonds m))]"
    "sorted (map (\<lambda>p. raw_keys (GetNumAtoms m) (bond_pairs (GetBonds m)) ! p) perm)"
    "process_row tk True r =
       Inr \<lparr>data_x = map feature_row (GetAtoms m),
            data_edge_index = as_edge_index (map ipair (map (\<lambda>p. bond_pairs (GetBonds m) ! p) perm)),
            data_y = [[row_labels r]], data_smiles = row_smiles r,
            data_edge_attr = Some (unsqueeze1 (map (\<lambda>p. bond_codes (GetBonds m) ! p) perm))\<rparr>"
  using edges_with_attr_eq[OF assms(1), of m "GetNumAtoms m"] process_row_with_attr[OF assms(2,3)]
  by blast

section \<open>Properties of the conversion\<close>

text \<open>
  C1. For a row whose structure string parses to a molecule, \<open>process_row\<close> returns a
  record whose node-feature table has one row per atom, in the order of \<open>GetAtoms\<close>, and
  five columns: atomic number, degree, formal charge, hybridization code and aromaticity
  flag (1 or 0). Nothing of the uninitialised allocation survives. This holds in both edge
  modes, for every sorting routine that returns a sorting permutation and every label that
  fits a 64-bit integer, which the record needs to be built at all.
\<close>

theorem node_feature_table:
  assumes "argsort_spec (argsort tk)" "MolFromSmiles tk (row_smiles r) = Some m"
    "fits_int64 (row_labels r)"
  shows "\<exists>d. process_row tk create_edge_attr r = Inr d \<and>
             length (data_x d) = GetNumAtoms m \<and>
             (\<forall>v\<in>set (data_x d). length v = 5) \<and>
             data_x d = map (\<lambda>a. [GetAtomicNum a, GetDegree a, GetFormalCharge a,
                                    GetHybridization a, if GetIsAromatic a then 1 else 0])
                            (GetAtoms m)"
proof (cases create_edge_attr)
  case True
  obtain perm where
    "process_row tk True r =
       Inr \<lparr>data_x = map feature_row (GetAtoms m),
            data_edge_index = as_edge_index (map ipair (map (\<lambda>p. bond_pairs (GetBonds m) ! p) perm)),
            data_y = [[row_labels r]], data_smiles = row_smiles r,
            data_edge_attr = Some (unsqueeze1 (map (\<lambda>p. bond_codes (GetBonds m) ! p) perm))\<rparr>"
    using edges_ok[OF assms] by blast
  then show ?thesis using True
    by (simp add: GetNumAtoms_def feature_row_def[abs_def])
next
  case False
  then show ?thesis using process_row_without_attr[OF assms(2,3)]
    by (simp add: GetNumAtoms_def feature_row_def[abs_def])
qed

theorem node_feature_table_witness:
  "\<exists>d. process_row example_toolkit True \<lparr>row_smiles = ''CCO'', row_labels = 1\<rparr> = Inr d \<and>
       length (data_x d) = 3 \<and>
       data_x d = [[6, 1, 0, 4, 0], [6, 2, 0, 4, 0], [8, 1, 0, 4, 0]]"
  using node_feature_table[of example_toolkit "\<lparr>row_smiles = ''CCO'', row_labels = 1\<rparr>" ethanol True]
    example_argsort
  by (auto simp: ethanol_def carbon_def oxygen_def GetNumAtoms_def)

lemma zip_bond_entries:
  "zip (map ipair (bond_pairs bs)) (unsqueeze1 (bond_codes bs)) =
   concat (map (\<lambda>b. [((int (GetBeginAtomIdx b), int (GetEndAtomIdx b)), [bond_attr b]),
                       ((int (GetEndAtomIdx b), int (GetBeginAtomIdx b)), [bond_attr b])]) bs)"
  by (induction bs) (simp_all add: bond_pairs_def bond_codes_def unsqueeze1_def ipair_def)

lemma zip_selected:
  assumes "set perm \<subseteq> {0..<length xs}" "length ys = length xs"
  shows "zip (map (\<lambda>p. xs ! p) perm) (map (\<lambda>p. ys ! p) perm) = map (\<lambda>p. zip xs ys ! p) perm"
  using assms by (auto simp: zip_map_map map_zip_map zip_same_conv_map subset_iff)

lemma edge_entries_permuted:
  assumes "mset perm = mset [0..<length (bond_pairs bs)]"
  shows "mset (zip (map ipair (map (\<lambda>p. bond_pairs bs ! p) perm))
                   (unsqueeze1 (map (\<lambda>p. bond_codes bs ! p) perm))) =
         mset (zip (map ipair (bond_pairs bs)) (unsqueeze1 (bond_codes bs)))"
proof -
  let ?xs = "map ipair (bond_pairs bs)" and ?ys = "unsqueeze1 (bond_codes bs)"
  have len: "length ?ys = length ?xs"
    by (simp add: unsqueeze1_def length_bond_pairs length_bond_codes)
  have st: "set perm \<subseteq> {0..<length ?xs}"
    using assms by (metis length_map order_refl set_mset_mset set_upt)
  have st': "set perm \<subseteq> {0..<length (bond_pairs bs)}" "set perm \<subseteq> {0..<length (bond_codes bs)}"
    using st len by (simp_all add: unsqueeze1_def)
  have "zip (map ipair (map (\<lambda>p. bond_pairs bs ! p) perm))
            (unsqueeze1 (map (\<lambda>p. bond_codes bs ! p) perm)) =
        zip (map (\<lambda>p. ?xs ! p) perm) (map (\<lambda>p. ?ys ! p) perm)"
    unfolding unsqueeze1_def select_map[OF st'(1)] select_map[OF st'(2)] ..
  also have "\<dots> = map (\<lambda>p. zip ?xs ?ys ! p) perm" by (rule zip_selected[OF st len])
  finally have "mset (zip (map ipair (map (\<lambda>p. bond_pairs bs ! p) perm))
            (unsqueeze1 (map (\<lambda>p. bond_codes bs ! p) perm))) = mset (map (\<lambda>p. zip ?xs ?ys ! p) perm)"
    by simp
  also have "\<dots> = mset (zip ?xs ?ys)"
    using assms len by (intro mset_permuted) simp
  finally show ?thesis .
qed

lemma edge_mode_entries:
  assumes "argsort_spec (argsort tk)" "MolFromSmiles tk (row_smiles r) = Some m"
    "fits_int64 (row_labels r)"
  obtains es cs where
    "process_row tk True r =
       Inr \<lparr>data_x = map feature_row (GetAtoms m), data_edge_index = as_edge_index es,
            data_y = [[row_labels r]], data_smiles = row_smiles r, data_edge_attr = Some cs\<rparr>"
    "length es = 2 * length (GetBonds m)" "length cs = 2 * length (GetBonds m)"
    "mset (zip es cs) =
     mset (concat (map (\<lambda>b.
            [((int (GetBeginAtomIdx b), int (GetEndAtomIdx b)), [bond_attr b]),
             ((int (GetEndAtomIdx b), int (GetBeginAtomIdx b)), [bond_attr b])]) (GetBonds m)))"
proof -
  let ?bs = "GetBonds m"
  obtain perm where perm: "mset perm = mset [0..<length (bond_pairs ?bs)]"
    and row: "process_row tk True r =
       Inr \<lparr>data_x = map feature_row (GetAtoms m),
            data_edge_index = as_edge_index (map ipair (map (\<lambda>p. bond_pairs ?bs ! p) perm)),
            data_y = [[row_labels r]], data_smiles = row_smiles r,
            data_edge_attr = Some (unsqueeze1 (map (\<lambda>p. bond_codes ?bs ! p) perm))\<rparr>"
    using edges_ok[OF assms] by blast
  have len: "length perm = 2 * length ?bs"
    using perm by (metis size_mset length_upt diff_zero length_bond_pairs)
  define es where "es = map ipair (map (\<lambda>p. bond_pairs ?bs ! p) perm)"
  define cs where "cs = unsqueeze1 (map (\<lambda>p. bond_codes ?bs ! p) perm)"
  have m: "mset (zip es cs) =
        mset (concat (map (\<lambda>b.
                  [((int (GetBeginAtomIdx b), int (GetEndAtomIdx b)), [bond_attr b]),
                   ((int (GetEndAtomIdx b), int (GetBeginAtomIdx b)), [bond_attr b])]) ?bs))"
    unfolding es_def cs_def using edge_entries_permuted[OF perm] by (simp only: zip_bond_entries)
  have les: "length es = 2 * length ?bs" and lcs: "length cs = 2 * length ?bs"
    using len by (simp_all add: es_def cs_def unsqueeze1_def)
  have "process_row tk True r =
       Inr \<lparr>data_x = map feature_row (GetAtoms m), data_edge_index = as_edge_index es,
            data_y = [[row_labels r]], data_smiles = row_smiles r, data_edge_attr = Some cs\<rparr>"
    using row by (simp only: es_def cs_def)
  then show ?thesis using les lcs m that by blast
qed

text \<open>
  C2. In edge-attribute mode a molecule with B bonds gives an edge index of two rows of
  length 2B and 2B edge-feature rows, and the emitted (source, destination, feature)
  entries are, as a multiset, exactly the two entries of every bond: (begin, end) and
  (end, begin), both with the code of that bond. The label of the row has to fit a 64-bit
  integer for the record to be built.
\<close>

theorem two_directed_entries_per_bond:
  assumes "argsort_spec (argsort tk)" "MolFromSmiles tk (row_smiles r) = Some m"
    "fits_int64 (row_labels r)"
  shows "\<exists>d ea. process_row tk True r = Inr d \<and> data_edge_attr d = Some ea \<and>
           length (data_edge_index d) = 2 \<and>
           length (data_edge_index d ! 0) = 2 * length (GetBonds m) \<and>
           length (data_edge_index d ! 1) = 2 * length (GetBonds m) \<and>
           length ea = 2 * length (GetBonds m) \<and>
           mset (zip (zip (data_edge_index d ! 0) (data_edge_index d ! 1)) ea) =
           mset (concat (map (\<lambda>b.
                  [((int (GetBeginAtomIdx b), int (GetEndAtomIdx b)), [bond_attr b]),
                   ((int (GetEndAtomIdx b), int (GetBeginAtomIdx b)), [bond_attr b])]) (GetBonds m)))"
proof -
  obtain es cs where row: "process_row tk True r =
       Inr \<lparr>data_x = map feature_row (GetAtoms m), data_edge_index = as_edge_index es,
            data_y = [[row_labels r]], data_smiles = row_smiles r, data_edge_attr = Some cs\<rparr>"
    and les: "length es = 2 * length (GetBonds m)" and lcs: "length cs = 2 * length (GetBonds m)"
    and m: "mset (zip es cs) =
     mset (concat (map (\<lambda>b.
            [((int (GetBeginAtomIdx b), int (GetEndAtomIdx b)), [bond_attr b]),
             ((int (GetEndAtomIdx b), int (GetBeginAtomIdx b)), [bond_attr b])]) (GetBonds m)))"
    using edge_mode_entries[OF assms] by blast
  have z: "zip (map fst es) (map snd es) = es" by (rule zip_map_fst_snd)
  show ?thesis
    unfolding row using les lcs m by (simp add: as_edge_index_def z)
qed

theorem two_directed_entries_per_bond_witness:
  "\<exists>d ea. process_row example_toolkit True \<lparr>row_smiles = ''CCO'', row_labels = 1\<rparr> = Inr d \<and>
      data_edge_attr d = Some ea \<and>
      length (data_edge_index d ! 0) = 4 \<and> length (data_edge_index d ! 1) = 4 \<and> length ea = 4 \<and>
      mset (zip (zip (data_edge_index d ! 0) (data_edge_index d ! 1)) ea) =
      mset [((0, 1), [1]), ((1, 0), [1]), ((1, 2), [1]), ((2, 1), [1])]"
  using two_directed_entries_per_bond[of example_toolkit "\<lparr>row_smiles = ''CCO'', row_labels = 1\<rparr>" ethanol]
    example_argsort
  by (auto simp: ethanol_def single_bond_def bond_attr_def py_int_def)

lemma sorted_int_map: "sorted (map (\<lambda>p. int (f p)) xs) = sorted (map f xs)"
  by (simp add: sorted_map)

lemma distinct_int_map: "distinct (map (\<lambda>p. int (f p)) xs) = distinct (map f xs)"
  by (simp add: distinct_map inj_on_def)

lemma sorted_pairs_facts:
  assumes wf: "wf_mol m"
    and perm: "mset perm = mset [0..<length (bond_pairs (GetBonds m))]"
    and srt: "sorted (map (\<lambda>p. raw_keys (GetNumAtoms m) (bond_pairs (GetBonds m)) ! p) perm)"
  defines "ps' \<equiv> map (\<lambda>p. bond_pairs (GetBonds m) ! p) perm"
  shows "set ps' = set (bond_pairs (GetBonds m))"
    and "distinct ps'"
    and "\<forall>p\<in>set ps'. fst p < GetNumAtoms m \<and> snd p < GetNumAtoms m"
    and "raw_keys (GetNumAtoms m) ps' = map (\<lambda>p. int (composite_key (GetNumAtoms m) p)) ps'"
    and "sorted (map (composite_key (GetNumAtoms m)) ps')"
    and "distinct (map (composite_key (GetNumAtoms m)) ps')"
proof -
  let ?ps = "bond_pairs (GetBonds m)" and ?N = "GetNumAtoms m"
  have ms: "mset ps' = mset ?ps" unfolding ps'_def using perm by (rule mset_permuted)
  show st: "set ps' = set ?ps" using ms by (rule mset_eq_setD)
  show d: "distinct ps'" using ms distinct_bond_pairs[OF wf] by (metis mset_eq_imp_distinct_iff)
  show rng: "\<forall>p\<in>set ps'. fst p < ?N \<and> snd p < ?N"
    using st bond_pairs_in_range[OF wf] by blast
  have N: "?N < 2 ^ 31" using wf by (simp add: wf_mol_def)
  show "raw_keys ?N ps' = map (\<lambda>p. int (composite_key ?N p)) ps'"
    using N rng by (rule raw_keys_exact)
  have rng0: "\<forall>p\<in>set ?ps. fst p < ?N \<and> snd p < ?N"
    using bond_pairs_in_range[OF wf] by blast
  have sp: "set perm \<subseteq> {0..<length ?ps}"
    using perm by (metis order_refl set_mset_mset set_upt)
  have "map (\<lambda>p. raw_keys ?N ?ps ! p) perm = map (\<lambda>p. int (composite_key ?N p)) ps'"
    unfolding raw_keys_exact[OF N rng0] ps'_def by (rule select_map[OF sp])
  then have "sorted (map (\<lambda>p. int (composite_key ?N p)) ps')" using srt by simp
  then show "sorted (map (composite_key ?N) ps')"
    by (simp only: sorted_int_map)
  have "inj_on (composite_key ?N) (set ps')"
    using rng by (intro inj_on_subset[OF composite_key_inj]) auto
  then show "distinct (map (composite_key ?N) ps')" using d by (simp add: distinct_map)
qed

lemma math_keys:
  "map (\<lambda>(s, t). s * int n + t) (zip (map fst (map ipair ps)) (map snd (map ipair ps))) =
   map (\<lambda>p. int (composite_key n p)) ps"
  by (induction ps) (simp_all add: ipair_def composite_key_def)

text \<open>
  C3. For a well-formed molecule in edge-attribute mode, the composite keys
  \<open>source * node_count + destination\<close> along the emitted edge index are non-decreasing,
  and sorting the emitted edge index and edge features once more, with the same node
  count and the same sorting routine, returns them unchanged. The label of the row has to
  fit a 64-bit integer for the record to be built.
\<close>

theorem composite_key_sorted_and_resort:
  assumes "argsort_spec (argsort tk)" "MolFromSmiles tk (row_smiles r) = Some m" "wf_mol m"
    "fits_int64 (row_labels r)"
  shows "\<exists>d ea. process_row tk True r = Inr d \<and> data_edge_attr d = Some ea \<and>
           length (data_x d) = GetNumAtoms m \<and>
           sorted (map (\<lambda>(s, t). s * int (GetNumAtoms m) + t)
                       (zip (data_edge_index d ! 0) (data_edge_index d ! 1))) \<and>
           sort_edges (argsort tk) (length (data_x d)) (data_edge_index d) ea =
             Inr (data_edge_index d, ea)"
proof -
  let ?bs = "GetBonds m" and ?N = "GetNumAtoms m"
  obtain perm where perm: "mset perm = mset [0..<length (bond_pairs ?bs)]"
    and srt: "sorted (map (\<lambda>p. raw_keys ?N (bond_pairs ?bs) ! p) perm)"
    and row: "process_row tk True r =
       Inr \<lparr>data_x = map feature_row (GetAtoms m),
            data_edge_index = as_edge_index (map ipair (map (\<lambda>p. bond_pairs ?bs ! p) perm)),
            data_y = [[row_labels r]], data_smiles = row_smiles r,
            data_edge_attr = Some (unsqueeze1 (map (\<lambda>p. bond_codes ?bs ! p) perm))\<rparr>"
    using edges_ok[OF assms(1,2,4)] by blast
  define ps' where "ps' = map (\<lambda>p. bond_pairs ?bs ! p) perm"
  define cs' where "cs' = map (\<lambda>p. bond_codes ?bs ! p) perm"
  note f = sorted_pairs_facts[OF assms(3) perm srt, folded ps'_def]
  have lcs: "length cs' = length ps'" by (simp add: cs'_def ps'_def)
  let ?d = "\<lparr>data_x = map feature_row (GetAtoms m), data_edge_index = as_edge_index (map ipair ps'),
            data_y = [[row_labels r]], data_smiles = row_smiles r,
            data_edge_attr = Some (unsqueeze1 cs')\<rparr>"
  have r: "process_row tk True r = Inr ?d" using row by (simp only: ps'_def cs'_def)
  have k: "sorted (map (\<lambda>(s, t). s * int ?N + t)
                       (zip (as_edge_index (map ipair ps') ! 0) (as_edge_index (map ipair ps') ! 1)))"
  proof -
    have "sorted (map (\<lambda>p. int (composite_key ?N p)) ps')"
      using f(5) by (simp only: sorted_int_map)
    then show ?thesis by (simp only: as_edge_index_def nth_Cons_0 nth_Cons_Suc One_nat_def math_keys)
  qed
  have a: "is_argsort (raw_keys ?N ps') (argsort tk (raw_keys ?N ps'))"
    using assms(1) by (simp add: argsort_spec_def)
  have again: "sort_edges (argsort tk) ?N (as_edge_index (map ipair ps')) (unsqueeze1 cs') =
               Inr (as_edge_index (map ipair ps'), unsqueeze1 cs')"
  proof (cases "ps' = []")
    case True
    then show ?thesis
      using lcs sort_edges_eq[where srt="argsort tk" and n="?N" and ps=ps' and cs=cs', OF a lcs]
      by (simp add: unsqueeze1_def)
  next
    case False
    have s: "sorted (raw_keys ?N ps')"
      unfolding f(4) using f(5) by (simp only: sorted_int_map)
    have d: "distinct (raw_keys ?N ps')"
      unfolding f(4) using f(6) by (simp only: distinct_int_map)
    have id: "argsort tk (raw_keys ?N ps') = [0..<length ps']"
      using argsort_sorted_distinct_id[OF s d a] by (simp add: raw_keys_def)
    have "map (\<lambda>p. ps' ! p) [0..<length ps'] = ps'" by (rule map_nth)
    moreover have "map (\<lambda>p. cs' ! p) [0..<length ps'] = cs'"
      using map_nth[of cs'] lcs by simp
    ultimately show ?thesis
      using False sort_edges_eq[where srt="argsort tk" and n="?N" and ps=ps' and cs=cs', OF a lcs]
      by (simp add: id)
  qed
  have "data_edge_attr ?d = Some (unsqueeze1 cs')" by simp
  moreover have "length (data_x ?d) = ?N" by (simp add: GetNumAtoms_def)
  moreover have "sorted (map (\<lambda>(s, t). s * int ?N + t)
                       (zip (data_edge_index ?d ! 0) (data_edge_index ?d ! 1)))"
    using k by simp
  moreover have "sort_edges (argsort tk) (length (data_x ?d)) (data_edge_index ?d) (unsqueeze1 cs') =
             Inr (data_edge_index ?d, unsqueeze1 cs')"
    using again by (simp add: GetNumAtoms_def)
  ultimately show ?thesis using r by blast
qed

theorem composite_key_sorted_and_resort_witness:
  "\<exists>d ea. process_row example_toolkit True \<lparr>row_smiles = ''c1ccccc1'', row_labels = 1\<rparr> = Inr d \<and>
      data_edge_attr d = Some ea \<and> length (data_x d) = 6 \<and>
      sorted (map (\<lambda>(s, t). s * 6 + t) (zip (data_edge_index d ! 0) (data_edge_index d ! 1))) \<and>
      sort_edges stable_argsort (length (data_x d)) (data_edge_index d) ea = Inr (data_edge_index d, ea)"
proof -
  have a: "argsort example_toolkit = stable_argsort" by (simp add: example_toolkit_def)
  have n: "GetNumAtoms benzene = 6" by (simp add: benzene_def GetNumAtoms_def)
  show ?thesis
    using composite_key_sorted_and_resort[of example_toolkit
            "\<lparr>row_smiles = ''c1ccccc1'', row_labels = 1\<rparr>" benzene]
      example_argsort wf_benzene
    by (simp add: a n)
qed

lemma set_nonzero_adjacency:
  "wf_mol m \<Longrightarrow> set (nonzero (GetAdjacencyMatrix m)) = set (bond_pairs (GetBonds m))"
proof -
  assume wf: "wf_mol m"
  have "\<And>i j. (i, j) \<in> set (bond_pairs (GetBonds m)) \<Longrightarrow> i < GetNumAtoms m \<and> j < GetNumAtoms m"
    using bond_pairs_in_range[OF wf] by fastforce
  moreover have "\<And>i j. bonded m i j \<longleftrightarrow> (i, j) \<in> set (bond_pairs (GetBonds m))"
    by (auto simp: bonded_def set_bond_pairs list_ex_iff)
  ultimately show ?thesis
    unfolding nonzero_adjacency by auto
qed

lemma sorted_nonzero_adjacency:
  "sorted_wrt (<) (map (composite_key (GetNumAtoms m)) (nonzero (GetAdjacencyMatrix m)))"
proof -
  have "sorted_wrt (\<lambda>a b. composite_key (GetNumAtoms m) a < composite_key (GetNumAtoms m) b)
          (List.product [0..<GetNumAtoms m] [0..<GetNumAtoms m])"
    using product_keys_sorted[of "GetNumAtoms m" "GetNumAtoms m"] by (simp only: sorted_wrt_map)
  then show ?thesis
    unfolding nonzero_adjacency sorted_wrt_map by (rule sorted_wrt_filter)
qed

text \<open>
  C10. For a well-formed molecule the two edge modes emit the same edge index: the sorted
  list of both directed pairs of every bond equals, entry for entry, the sparse form of the
  adjacency matrix. The label of the row has to fit a 64-bit integer for either record to
  be built.
\<close>

theorem edge_modes_agree:
  assumes "argsort_spec (argsort tk)" "MolFromSmiles tk (row_smiles r) = Some m" "wf_mol m"
    "fits_int64 (row_labels r)"
  shows "\<exists>d d'. process_row tk True r = Inr d \<and> process_row tk False r = Inr d' \<and>
           data_edge_index d' = dense_to_sparse (GetAdjacencyMatrix m) \<and>
           data_edge_index d = data_edge_index d'"
proof -
  let ?bs = "GetBonds m" and ?N = "GetNumAtoms m"
  obtain perm where perm: "mset perm = mset [0..<length (bond_pairs ?bs)]"
    and srt: "sorted (map (\<lambda>p. raw_keys ?N (bond_pairs ?bs) ! p) perm)"
    and row: "process_row tk True r =
       Inr \<lparr>data_x = map feature_row (GetAtoms m),
            data_edge_index = as_edge_index (map ipair (map (\<lambda>p. bond_pairs ?bs ! p) perm)),
            data_y = [[row_labels r]], data_smiles = row_smiles r,
            data_edge_attr = Some (unsqueeze1 (map (\<lambda>p. bond_codes ?bs ! p) perm))\<rparr>"
    using edges_ok[OF assms(1,2,4)] by blast
  define ps' where "ps' = map (\<lambda>p. bond_pairs ?bs ! p) perm"
  define nz where "nz = nonzero (GetAdjacencyMatrix m)"
  note f = sorted_pairs_facts[OF assms(3) perm srt, folded ps'_def]
  have nz_strict: "sorted_wrt (<) (map (composite_key ?N) nz)"
    unfolding nz_def by (rule sorted_nonzero_adjacency)
  have nz_set: "set nz = set ps'"
    unfolding nz_def using set_nonzero_adjacency[OF assms(3)] f(1) by simp
  have inj: "inj_on (composite_key ?N) (set ps' \<union> set nz)"
    using f(3) nz_set by (intro inj_on_subset[OF composite_key_inj]) auto
  have eq: "ps' = nz"
    using inj f(5) f(6) nz_strict nz_set
    by (intro map_sorted_distinct_set_unique[of "composite_key ?N"])
       (simp_all add: strict_sorted_iff)
  have d2s: "dense_to_sparse (GetAdjacencyMatrix m) = as_edge_index (map ipair nz)"
    by (simp add: dense_to_sparse_def as_edge_index_def nz_def ipair_def comp_def Let_def)
  have "process_row tk True r =
       Inr \<lparr>data_x = map feature_row (GetAtoms m), data_edge_index = as_edge_index (map ipair nz),
            data_y = [[row_labels r]], data_smiles = row_smiles r,
            data_edge_attr = Some (unsqueeze1 (map (\<lambda>p. bond_codes ?bs ! p) perm))\<rparr>"
    using row by (simp only: ps'_def[symmetric] eq)
  then show ?thesis
    using process_row_without_attr[OF assms(2,4)] d2s by simp
qed

theorem edge_modes_agree_witness:
  "\<exists>d d'. process_row example_toolkit True \<lparr>row_smiles = ''c1ccccc1'', row_labels = 1\<rparr> = Inr d \<and>
      process_row example_toolkit False \<lparr>row_smiles = ''c1ccccc1'', row_labels = 1\<rparr> = Inr d' \<and>
      data_edge_index d' = dense_to_sparse (GetAdjacencyMatrix benzene) \<and>
      data_edge_index d = data_edge_index d'"
  using edge_modes_agree[of example_toolkit "\<lparr>row_smiles = ''c1ccccc1'', row_labels = 1\<rparr>" benzene]
    example_argsort wf_benzene
  by simp

lemma py_int_of_int: "py_int (of_int k) = k"
  by (simp add: py_int_def)

lemma py_int_small: "py_int 1 = 1" "py_int 2 = 2" "py_int 3 = 3"
  by (simp_all add: py_int_def)

lemma bond_attr_aromatic: "BondGetIsAromatic b \<Longrightarrow> bond_attr b = 4"
  by (simp add: bond_attr_def)

lemma bond_attr_plain: "\<not> BondGetIsAromatic b \<Longrightarrow> bond_attr b = py_int (GetBondTypeAsDouble b)"
  by (simp add: bond_attr_def)

lemma bond_attr_single_double_triple:
  assumes "\<not> BondGetIsAromatic b" "GetBondTypeAsDouble b \<in> {1, 2, 3}"
  shows "bond_attr b \<in> {1, 2, 3} \<and> bond_attr b \<noteq> 4"
proof -
  have "GetBondTypeAsDouble b = 1 \<or> GetBondTypeAsDouble b = 2 \<or> GetBondTypeAsDouble b = 3"
    using assms(2) by blast
  then show ?thesis
    using py_int_small by (auto simp add: bond_attr_plain[OF assms(1)])
qed

lemma entry_from_bond:
  assumes "mset (zip es cs) = mset (concat (map (\<lambda>b. [(f b, g b), (f' b, g b)]) bs))"
    and "length es = length cs" "j < length cs"
  shows "\<exists>b\<in>set bs. (es ! j = f b \<or> es ! j = f' b) \<and> cs ! j = g b"
proof -
  have "zip es cs ! j \<in> set (zip es cs)" using assms(2,3) by (intro nth_mem) simp
  then have "zip es cs ! j \<in> set (concat (map (\<lambda>b. [(f b, g b), (f' b, g b)]) bs))"
    using mset_eq_setD[OF assms(1)] by simp
  moreover have "zip es cs ! j = (es ! j, cs ! j)" using assms(2,3) by simp
  ultimately have "(es ! j, cs ! j) \<in> set (concat (map (\<lambda>b. [(f b, g b), (f' b, g b)]) bs))"
    by simp
  then show ?thesis by auto
qed

lemma bond_has_entries:
  assumes "mset (zip es cs) = mset (concat (map (\<lambda>b. [(f b, g b), (f' b, g b)]) bs))"
    and "length es = length cs" "b \<in> set bs"
  shows "\<exists>j j'. j < length cs \<and> j' < length cs \<and> es ! j = f b \<and> cs ! j = g b \<and>
                es ! j' = f' b \<and> cs ! j' = g b"
proof -
  have st: "set (zip es cs) = set (concat (map (\<lambda>b. [(f b, g b), (f' b, g b)]) bs))"
    using mset_eq_setD[OF assms(1)] by simp
  have "(f b, g b) \<in> set (zip es cs)" unfolding st using assms(3) by auto
  then obtain j where j: "j < length (zip es cs)" "zip es cs ! j = (f b, g b)"
    using in_set_conv_nth[of "(f b, g b)" "zip es cs"] by blast
  have "(f' b, g b) \<in> set (zip es cs)" unfolding st using assms(3) by auto
  then obtain j' where j': "j' < length (zip es cs)" "zip es cs ! j' = (f' b, g b)"
    using in_set_conv_nth[of "(f' b, g b)" "zip es cs"] by blast
  have "j < length cs \<and> es ! j = f b \<and> cs ! j = g b" using j assms(2) by simp
  moreover have "j' < length cs \<and> es ! j' = f' b \<and> cs ! j' = g b" using j' assms(2) by simp
  ultimately show ?thesis by blast
qed

lemma bond_attr_code:
  "(BondGetIsAromatic b \<longrightarrow> bond_attr b = 4) \<and>
   (\<not> BondGetIsAromatic b \<longrightarrow> bond_attr b = py_int (GetBondTypeAsDouble b) \<and>
       (\<forall>k. GetBondTypeAsDouble b = of_int k \<longrightarrow> bond_attr b = k)) \<and>
   (\<not> BondGetIsAromatic b \<and> GetBondTypeAsDouble b \<in> {1, 2, 3} \<longrightarrow>
       bond_attr b \<in> {1, 2, 3} \<and> bond_attr b \<noteq> 4)"
proof (cases "BondGetIsAromatic b")
  case True
  then show ?thesis by (simp add: bond_attr_aromatic)
next
  case False
  have 1: "bond_attr b = py_int (GetBondTypeAsDouble b)" by (rule bond_attr_plain[OF False])
  have 2: "\<forall>k. GetBondTypeAsDouble b = of_int k \<longrightarrow> bond_attr b = k"
    using 1 by (simp add: py_int_of_int)
  have 3: "GetBondTypeAsDouble b \<in> {1, 2, 3} \<longrightarrow> bond_attr b \<in> {1, 2, 3} \<and> bond_attr b \<noteq> 4"
    using bond_attr_single_double_triple[OF False] by blast
  show ?thesis using False 1 2 3 by blast
qed

text \<open>
  C4. In edge-attribute mode, for a row whose label fits a 64-bit integer, every bond of
  the molecule has its code emitted twice, once beside the entry (begin, end) and once
  beside the entry (end, begin), and every emitted edge-feature row holds the code of a bond
  that joins the two atoms of that edge entry. The code is 4 if the bond is aromatic,
  otherwise the bond order truncated to an integer, which is the order itself when the
  order is whole. For non-aromatic bonds of order 1, 2 or 3 the code is 1, 2 or 3 and so
  differs from 4.
\<close>

theorem edge_feature_code:
  assumes "argsort_spec (argsort tk)" "MolFromSmiles tk (row_smiles r) = Some m"
    "fits_int64 (row_labels r)"
  shows "\<exists>d ea. process_row tk True r = Inr d \<and> data_edge_attr d = Some ea \<and>
           (\<forall>b\<in>set (GetBonds m). \<exists>c j j'.
               j < length ea \<and> j' < length ea \<and>
               ea ! j = [c] \<and>
               (data_edge_index d ! 0 ! j, data_edge_index d ! 1 ! j) =
                 (int (GetBeginAtomIdx b), int (GetEndAtomIdx b)) \<and>
               ea ! j' = [c] \<and>
               (data_edge_index d ! 0 ! j', data_edge_index d ! 1 ! j') =
                 (int (GetEndAtomIdx b), int (GetBeginAtomIdx b)) \<and>
               (BondGetIsAromatic b \<longrightarrow> c = 4) \<and>
               (\<not> BondGetIsAromatic b \<longrightarrow> c = py_int (GetBondTypeAsDouble b) \<and>
                   (\<forall>k. GetBondTypeAsDouble b = of_int k \<longrightarrow> c = k)) \<and>
               (\<not> BondGetIsAromatic b \<and> GetBondTypeAsDouble b \<in> {1, 2, 3} \<longrightarrow>
                   c \<in> {1, 2, 3} \<and> c \<noteq> 4)) \<and>
           (\<forall>j<length ea. \<exists>b\<in>set (GetBonds m). \<exists>c.
               ea ! j = [c] \<and>
               (data_edge_index d ! 0 ! j, data_edge_index d ! 1 ! j) \<in>
                 {(int (GetBeginAtomIdx b), int (GetEndAtomIdx b)),
                  (int (GetEndAtomIdx b), int (GetBeginAtomIdx b))} \<and>
               (BondGetIsAromatic b \<longrightarrow> c = 4) \<and>
               (\<not> BondGetIsAromatic b \<longrightarrow> c = py_int (GetBondTypeAsDouble b) \<and>
                   (\<forall>k. GetBondTypeAsDouble b = of_int k \<longrightarrow> c = k)) \<and>
               (\<not> BondGetIsAromatic b \<and> GetBondTypeAsDouble b \<in> {1, 2, 3} \<longrightarrow>
                   c \<in> {1, 2, 3} \<and> c \<noteq> 4))"
proof -
  obtain es cs where row: "process_row tk True r =
       Inr \<lparr>data_x = map feature_row (GetAtoms m), data_edge_index = as_edge_index es,
            data_y = [[row_labels r]], data_smiles = row_smiles r, data_edge_attr = Some cs\<rparr>"
    and les: "length es = 2 * length (GetBonds m)" and lcs: "length cs = 2 * length (GetBonds m)"
    and m: "mset (zip es cs) =
     mset (concat (map (\<lambda>b.
            [((int (GetBeginAtomIdx b), int (GetEndAtomIdx b)), [bond_attr b]),
             ((int (GetEndAtomIdx b), int (GetBeginAtomIdx b)), [bond_attr b])]) (GetBonds m)))"
    using edge_mode_entries[OF assms] by blast
  have l: "length es = length cs" using les lcs by simp
  have i0: "as_edge_index es ! 0 ! j = fst (es ! j)" and i1: "as_edge_index es ! 1 ! j = snd (es ! j)"
    if "j < length cs" for j
    using that l by (simp_all add: as_edge_index_def)
  let ?d = "\<lparr>data_x = map feature_row (GetAtoms m), data_edge_index = as_edge_index es,
            data_y = [[row_labels r]], data_smiles = row_smiles r, data_edge_attr = Some cs\<rparr>"
  have fwd: "\<exists>c j j'.
               j < length cs \<and> j' < length cs \<and>
               cs ! j = [c] \<and>
               (data_edge_index ?d ! 0 ! j, data_edge_index ?d ! 1 ! j) =
                 (int (GetBeginAtomIdx b), int (GetEndAtomIdx b)) \<and>
               cs ! j' = [c] \<and>
               (data_edge_index ?d ! 0 ! j', data_edge_index ?d ! 1 ! j') =
                 (int (GetEndAtomIdx b), int (GetBeginAtomIdx b)) \<and>
               (BondGetIsAromatic b \<longrightarrow> c = 4) \<and>
               (\<not> BondGetIsAromatic b \<longrightarrow> c = py_int (GetBondTypeAsDouble b) \<and>
                   (\<forall>k. GetBondTypeAsDouble b = of_int k \<longrightarrow> c = k)) \<and>
               (\<not> BondGetIsAromatic b \<and> GetBondTypeAsDouble b \<in> {1, 2, 3} \<longrightarrow>
                   c \<in> {1, 2, 3} \<and> c \<noteq> 4)" if b: "b \<in> set (GetBonds m)" for b
  proof -
    obtain j j' where j: "j < length cs" "j' < length cs"
      and e: "es ! j = (int (GetBeginAtomIdx b), int (GetEndAtomIdx b))" "cs ! j = [bond_attr b]"
        "es ! j' = (int (GetEndAtomIdx b), int (GetBeginAtomIdx b))" "cs ! j' = [bond_attr b]"
      using bond_has_entries[OF m l b] by blast
    have p: "(data_edge_index ?d ! 0 ! j, data_edge_index ?d ! 1 ! j) =
                 (int (GetBeginAtomIdx b), int (GetEndAtomIdx b))"
      using i0[OF j(1)] i1[OF j(1)] e(1) by simp
    have p': "(data_edge_index ?d ! 0 ! j', data_edge_index ?d ! 1 ! j') =
                 (int (GetEndAtomIdx b), int (GetBeginAtomIdx b))"
      using i0[OF j(2)] i1[OF j(2)] e(3) by simp
    from bond_attr_code[of b] j e(2,4) p p' show ?thesis
      by (intro exI[of _ "bond_attr b"] exI[of _ j] exI[of _ j']) blast
  qed
  have bwd: "\<exists>b\<in>set (GetBonds m). \<exists>c.
               cs ! j = [c] \<and>
               (data_edge_index ?d ! 0 ! j, data_edge_index ?d ! 1 ! j) \<in>
                 {(int (GetBeginAtomIdx b), int (GetEndAtomIdx b)),
                  (int (GetEndAtomIdx b), int (GetBeginAtomIdx b))} \<and>
               (BondGetIsAromatic b \<longrightarrow> c = 4) \<and>
               (\<not> BondGetIsAromatic b \<longrightarrow> c = py_int (GetBondTypeAsDouble b) \<and>
                   (\<forall>k. GetBondTypeAsDouble b = of_int k \<longrightarrow> c = k)) \<and>
               (\<not> BondGetIsAromatic b \<and> GetBondTypeAsDouble b \<in> {1, 2, 3} \<longrightarrow>
                   c \<in> {1, 2, 3} \<and> c \<noteq> 4)" if j: "j < length cs" for j
  proof -
    obtain b where b: "b \<in> set (GetBonds m)"
      and e: "es ! j = (int (GetBeginAtomIdx b), int (GetEndAtomIdx b)) \<or>
              es ! j = (int (GetEndAtomIdx b), int (GetBeginAtomIdx b))"
      and cj: "cs ! j = [bond_attr b]"
      using entry_from_bond[OF m l j] by blast
    have e': "(data_edge_index ?d ! 0 ! j, data_edge_index ?d ! 1 ! j) \<in>
                 {(int (GetBeginAtomIdx b), int (GetEndAtomIdx b)),
                  (int (GetEndAtomIdx b), int (GetBeginAtomIdx b))}"
      using i0[OF j] i1[OF j] e by auto
    from bond_attr_code[of b] cj e' show ?thesis
      by (intro bexI[OF _ b] exI[of _ "bond_attr b"]) blast
  qed
  have "process_row tk True r = Inr ?d" by (rule row)
  moreover have "data_edge_attr ?d = Some cs" by simp
  ultimately show ?thesis using fwd bwd by blast
qed

lemma uniform_codes:
  assumes "\<forall>b\<in>set bs. \<exists>c j j'. j < length ea \<and> j' < length ea \<and> ea ! j = [c] \<and> Q b j \<and>
             ea ! j' = [c] \<and> Q' b j' \<and> K b c"
    and "\<forall>j<length ea. \<exists>b\<in>set bs. \<exists>c. ea ! j = [c] \<and> P b j \<and> K b c"
    and "bs \<noteq> []"
    and "\<forall>b\<in>set bs. \<forall>c. K b c \<longrightarrow> c = s"
  shows "set ea = {[s]}"
proof
  show "set ea \<subseteq> {[s]}"
  proof
    fix v assume "v \<in> set ea"
    then obtain j where j: "j < length ea" "ea ! j = v" using in_set_conv_nth[of v ea] by blast
    obtain b c where "b \<in> set bs" "ea ! j = [c]" "K b c"
      using assms(2) j(1) by blast
    then show "v \<in> {[s]}" using assms(4) j(2) by auto
  qed
next
  obtain b where b: "b \<in> set bs" using assms(3) by (cases bs) auto
  obtain c j where "j < length ea" "ea ! j = [c]" "K b c"
    using assms(1) b by blast
  then have "[s] \<in> set ea" using assms(4) b by (metis nth_mem)
  then show "{[s]} \<subseteq> set ea" by simp
qed

theorem edge_feature_code_witness:
  "(\<exists>d ea. process_row example_toolkit True \<lparr>row_smiles = ''CCO'', row_labels = 1\<rparr> = Inr d \<and>
      data_edge_attr d = Some ea \<and> set ea = {[1]}) \<and>
   (\<exists>d ea. process_row example_toolkit True \<lparr>row_smiles = ''c1ccccc1'', row_labels = 1\<rparr> = Inr d \<and>
      data_edge_attr d = Some ea \<and> set ea = {[4]})"
proof
  have p: "MolFromSmiles example_toolkit (row_smiles \<lparr>row_smiles = ''CCO'', row_labels = 1\<rparr>) = Some ethanol"
    by simp
  have l: "fits_int64 (row_labels \<lparr>row_smiles = ''CCO'', row_labels = 1\<rparr>)" by simp
  have ne: "GetBonds ethanol \<noteq> []" by (simp add: ethanol_def)
  have k: "\<forall>b\<in>set (GetBonds ethanol). \<forall>c. ((BondGetIsAromatic b \<longrightarrow> c = 4) \<and>
               (\<not> BondGetIsAromatic b \<longrightarrow> c = py_int (GetBondTypeAsDouble b) \<and>
                   (\<forall>k. GetBondTypeAsDouble b = of_int k \<longrightarrow> c = k)) \<and>
               (\<not> BondGetIsAromatic b \<and> GetBondTypeAsDouble b \<in> {1, 2, 3} \<longrightarrow>
                   c \<in> {1, 2, 3} \<and> c \<noteq> 4)) \<longrightarrow> c = 1"
    by (simp add: ethanol_def single_bond_def py_int_small)
  from edge_feature_code[OF example_argsort p l]
  show "\<exists>d ea. process_row example_toolkit True \<lparr>row_smiles = ''CCO'', row_labels = 1\<rparr> = Inr d \<and>
      data_edge_attr d = Some ea \<and> set ea = {[1]}"
    apply (elim exE conjE)
    apply (intro exI conjI)
      apply assumption
     apply assumption
    apply (erule (1) uniform_codes)
     apply (rule ne)
    apply (rule k)
    done
next
  have p: "MolFromSmiles example_toolkit (row_smiles \<lparr>row_smiles = ''c1ccccc1'', row_labels = 1\<rparr>) = Some benzene"
    by simp
  have l: "fits_int64 (row_labels \<lparr>row_smiles = ''c1ccccc1'', row_labels = 1\<rparr>)" by simp
  have ne: "GetBonds benzene \<noteq> []" by (simp add: benzene_def)
  have k: "\<forall>b\<in>set (GetBonds benzene). \<forall>c. ((BondGetIsAromatic b \<longrightarrow> c = 4) \<and>
               (\<not> BondGetIsAromatic b \<longrightarrow> c = py_int (GetBondTypeAsDouble b) \<and>
                   (\<forall>k. GetBondTypeAsDouble b = of_int k \<longrightarrow> c = k)) \<and>
               (\<not> BondGetIsAromatic b \<and> GetBondTypeAsDouble b \<in> {1, 2, 3} \<longrightarrow>
                   c \<in> {1, 2, 3} \<and> c \<noteq> 4)) \<longrightarrow> c = 4"
    by (simp add: benzene_def aromatic_bond_def)
  from edge_feature_code[OF example_argsort p l]
  show "\<exists>d ea. process_row example_toolkit True \<lparr>row_smiles = ''c1ccccc1'', row_labels = 1\<rparr> = Inr d \<and>
      data_edge_attr d = Some ea \<and> set ea = {[4]}"
    apply (elim exE conjE)
    apply (intro exI conjI)
      apply assumption
     apply assumption
    apply (erule (1) uniform_codes)
     apply (rule ne)
    apply (rule k)
    done
qed

section \<open>The loop over the rows and the cache\<close>

lemma row_loop_convert:
  "idx + length rows = length dl \<Longrightarrow>
   row_loop tk c dl idx rows =
   andthen (convert_rows tk c rows) (\<lambda>ds. Inr (take idx dl @ map Some ds @ drop (idx + length rows) dl))"
proof (induction rows arbitrary: dl idx)
  case Nil
  then show ?case by (simp add: andthen_def)
next
  case (Cons r rows)
  show ?case
  proof (cases "process_row tk c r")
    case (Inl e)
    then show ?thesis by (simp add: andthen_def)
  next
    case (Inr d)
    have i: "idx < length dl" using Cons.prems by simp
    have "row_loop tk c (dl[idx := Some d]) (Suc idx) rows =
          andthen (convert_rows tk c rows)
            (\<lambda>ds. Inr (take (Suc idx) (dl[idx := Some d]) @ map Some ds @
                        drop (Suc idx + length rows) (dl[idx := Some d])))"
      using Cons.prems by (intro Cons.IH) simp
    moreover have "take (Suc idx) (dl[idx := Some d]) = take idx dl @ [Some d]"
      using i by (simp add: take_Suc_conv_app_nth)
    ultimately show ?thesis
      using Inr i by (cases "convert_rows tk c rows") (simp_all add: andthen_def)
  qed
qed

lemma collate_filled: "ds \<noteq> [] \<Longrightarrow> collate (map Some ds) = Inr ds"
  by (simp add: collate_def list_all_iff comp_def)

lemma process_eq:
  "process tk c fs =
     (case raw_data_csv fs of
        None \<Rightarrow> (Some FileNotFoundError, fs)
      | Some df \<Rightarrow>
          (case convert_rows tk c df of
             Inl e \<Rightarrow> (Some e, fs)
           | Inr ds \<Rightarrow>
               if ds = [] then (Some IndexError, fs)
               else (None, fs\<lparr>processed_data_pt := Some ds\<rparr>)))"
proof (cases "raw_data_csv fs")
  case None
  then show ?thesis by (simp add: process_def)
next
  case (Some df)
  have "row_loop tk c (replicate (length df) None) 0 df =
        andthen (convert_rows tk c df) (\<lambda>ds. Inr (map Some ds))"
    using row_loop_convert[of 0 df "replicate (length df) None" tk c] by simp
  then show ?thesis
    using Some
    by (cases "convert_rows tk c df")
       (simp_all add: process_def andthen_def collate_filled, simp add: collate_def)
qed

lemma convert_rows_Inr:
  "convert_rows tk c rows = Inr ds \<longleftrightarrow>
   length ds = length rows \<and> (\<forall>k<length rows. process_row tk c (rows ! k) = Inr (ds ! k))"
proof (induction rows arbitrary: ds)
  case Nil
  then show ?case by auto
next
  case (Cons r rows)
  show ?case
  proof (cases "process_row tk c r")
    case (Inl e)
    then show ?thesis by (auto simp: andthen_def)
  next
    case d: (Inr d)
    show ?thesis
    proof (cases "convert_rows tk c rows")
      case (Inl e)
      have "\<not> (length ds = length (r # rows) \<and>
                (\<forall>k<length (r # rows). process_row tk c ((r # rows) ! k) = Inr (ds ! k)))"
      proof
        assume a: "length ds = length (r # rows) \<and>
                (\<forall>k<length (r # rows). process_row tk c ((r # rows) ! k) = Inr (ds ! k))"
        then obtain d' ds' where ds: "ds = d' # ds'" by (cases ds) auto
        have "length ds' = length rows \<and> (\<forall>k<length rows. process_row tk c (rows ! k) = Inr (ds' ! k))"
          using a ds by auto
        then have "convert_rows tk c rows = Inr ds'" using Cons.IH by blast
        then show False using Inl by simp
      qed
      then show ?thesis using d Inl by (simp add: andthen_def)
    next
      case (Inr ds')
      have ih: "length ds' = length rows \<and> (\<forall>k<length rows. process_row tk c (rows ! k) = Inr (ds' ! k))"
        using Inr Cons.IH by blast
      have "convert_rows tk c (r # rows) = Inr (d # ds')" using d Inr by (simp add: andthen_def)
      moreover have "d # ds' = ds \<longleftrightarrow>
         length ds = length (r # rows) \<and>
         (\<forall>k<length (r # rows). process_row tk c ((r # rows) ! k) = Inr (ds ! k))"
      proof
        assume "d # ds' = ds"
        then show "length ds = length (r # rows) \<and>
         (\<forall>k<length (r # rows). process_row tk c ((r # rows) ! k) = Inr (ds ! k))"
          using ih d by (auto simp: nth_Cons split: nat.splits)
      next
        assume a: "length ds = length (r # rows) \<and>
         (\<forall>k<length (r # rows). process_row tk c ((r # rows) ! k) = Inr (ds ! k))"
        then obtain d' ds'' where ds: "ds = d' # ds''" by (cases ds) auto
        have "d' = d" using a ds d by auto
        moreover have "length ds'' = length rows \<and> (\<forall>k<length rows. process_row tk c (rows ! k) = Inr (ds'' ! k))"
          using a ds by auto
        then have "convert_rows tk c rows = Inr ds''" using Cons.IH by blast
        then have "ds'' = ds'" using Inr by simp
        ultimately show "d # ds' = ds" using ds by simp
      qed
      ultimately show ?thesis by auto
    qed
  qed
qed

lemma convert_rows_fails:
  "r \<in> set rows \<Longrightarrow> process_row tk c r = Inl e \<Longrightarrow> \<exists>e'. convert_rows tk c rows = Inl e'"
proof (induction rows)
  case Nil
  then show ?case by simp
next
  case (Cons a rows)
  show ?case
  proof (cases "process_row tk c a")
    case (Inl e')
    then show ?thesis by (simp add: andthen_def)
  next
    case (Inr d)
    then have "r \<in> set rows" using Cons.prems by auto
    then obtain e' where "convert_rows tk c rows = Inl e'" using Cons by blast
    then show ?thesis using Inr by (simp add: andthen_def)
  qed
qed

lemma process_row_unparseable:
  "MolFromSmiles tk (row_smiles r) = None \<Longrightarrow> process_row tk c r = Inl AttributeError"
  by (simp add: process_row_def)

lemma process_row_total:
  assumes "argsort_spec (argsort tk)" "MolFromSmiles tk (row_smiles r) = Some m"
    "fits_int64 (row_labels r)"
  shows "\<exists>d. process_row tk c r = Inr d"
proof (cases c)
  case True
  obtain perm where
    "process_row tk True r =
       Inr \<lparr>data_x = map feature_row (GetAtoms m),
            data_edge_index = as_edge_index (map ipair (map (\<lambda>p. bond_pairs (GetBonds m) ! p) perm)),
            data_y = [[row_labels r]], data_smiles = row_smiles r,
            data_edge_attr = Some (unsqueeze1 (map (\<lambda>p. bond_codes (GetBonds m) ! p) perm))\<rparr>"
    using edges_ok[OF assms] by blast
  then show ?thesis using True by simp
next
  case False
  then show ?thesis using process_row_without_attr[OF assms(2,3)] by simp
qed

lemma process_row_bad_label:
  assumes "argsort_spec (argsort tk)" "MolFromSmiles tk (row_smiles r) = Some m"
    "\<not> fits_int64 (row_labels r)"
  shows "process_row tk c r = Inl RuntimeError"
proof (cases c)
  case True
  obtain ei ea where "edges_with_attr (argsort tk) m (GetNumAtoms m) = Inr (ei, ea)"
    using edges_with_attr_eq[OF assms(1), of m "GetNumAtoms m"] by blast
  then show ?thesis
    using True assms(2,3)
    by (simp add: process_row_def node_features_rows andthen_def GetNumAtoms_def label_tensor_def)
next
  case False
  then show ?thesis
    using assms(2,3)
    by (simp add: process_row_def node_features_rows andthen_def label_tensor_def)
qed

lemma process_row_error_kind:
  assumes "argsort_spec (argsort tk)" "process_row tk c r = Inl e"
  shows "(e = AttributeError \<and> MolFromSmiles tk (row_smiles r) = None) \<or>
         (e = RuntimeError \<and> \<not> fits_int64 (row_labels r))"
proof (cases "MolFromSmiles tk (row_smiles r)")
  case None
  then show ?thesis using assms(2) by (simp add: process_row_unparseable)
next
  case (Some m)
  show ?thesis
  proof (cases "fits_int64 (row_labels r)")
    case True
    then show ?thesis using process_row_total[OF assms(1) Some True, of c] assms(2) by auto
  next
    case False
    then show ?thesis using process_row_bad_label[OF assms(1) Some False, of c] assms(2) by simp
  qed
qed

lemma convert_rows_error_kind:
  "argsort_spec (argsort tk) \<Longrightarrow> convert_rows tk c rows = Inl e \<Longrightarrow>
   e = AttributeError \<or> (e = RuntimeError \<and> (\<exists>r\<in>set rows. \<not> fits_int64 (row_labels r)))"
proof (induction rows)
  case Nil
  then show ?case by simp
next
  case (Cons r rows)
  show ?case
  proof (cases "process_row tk c r")
    case (Inl e')
    then have "e' = e" using Cons.prems(2) by (simp add: andthen_def)
    then show ?thesis using process_row_error_kind[OF Cons.prems(1) Inl] by auto
  next
    case (Inr d)
    then have "convert_rows tk c rows = Inl e"
      using Cons.prems(2) by (cases "convert_rows tk c rows") (simp_all add: andthen_def)
    then show ?thesis using Cons.IH[OF Cons.prems(1)] by auto
  qed
qed

text \<open>
  C6. \<open>process\<close> is all-or-nothing. Whenever it raises, the files are exactly as before: no
  cache file is written and nothing of the rows already converted persists. It raises
  whenever some row of the table fails. When it does not raise, the one write stores a
  collection with one record per row, each the record of its row.
\<close>

theorem conversion_all_or_nothing:
  "(\<forall>e fs'. process tk c fs = (Some e, fs') \<longrightarrow> fs' = fs) \<and>
   (\<forall>df r e. raw_data_csv fs = Some df \<and> r \<in> set df \<and> process_row tk c r = Inl e \<longrightarrow>
      (\<exists>e'. process tk c fs = (Some e', fs))) \<and>
   (\<forall>fs'. process tk c fs = (None, fs') \<longrightarrow>
      (\<exists>df ds. raw_data_csv fs = Some df \<and> fs' = fs\<lparr>processed_data_pt := Some ds\<rparr> \<and>
          length ds = length df \<and> (\<forall>k<length df. process_row tk c (df ! k) = Inr (ds ! k))))"
proof (intro conjI allI impI)
  fix e fs' assume "process tk c fs = (Some e, fs')"
  then show "fs' = fs"
    by (auto simp: process_eq split: option.splits sum.splits if_splits)
next
  fix df r e
  assume a: "raw_data_csv fs = Some df \<and> r \<in> set df \<and> process_row tk c r = Inl e"
  then obtain e' where "convert_rows tk c df = Inl e'" using convert_rows_fails by blast
  then show "\<exists>e'. process tk c fs = (Some e', fs)" using a by (simp add: process_eq)
next
  fix fs' assume p: "process tk c fs = (None, fs')"
  then obtain df where df: "raw_data_csv fs = Some df"
    by (auto simp: process_eq split: option.splits)
  then obtain ds where ds: "convert_rows tk c df = Inr ds" and fs': "fs' = fs\<lparr>processed_data_pt := Some ds\<rparr>"
    using p by (auto simp: process_eq split: sum.splits if_splits)
  have "length ds = length df \<and> (\<forall>k<length df. process_row tk c (df ! k) = Inr (ds ! k))"
    by (rule convert_rows_Inr[THEN iffD1, OF ds])
  then show "\<exists>df ds. raw_data_csv fs = Some df \<and> fs' = fs\<lparr>processed_data_pt := Some ds\<rparr> \<and>
          length ds = length df \<and> (\<forall>k<length df. process_row tk c (df ! k) = Inr (ds ! k))"
    using df fs' by blast
qed

theorem conversion_all_or_nothing_witness:
  "\<exists>e. process example_toolkit True
          \<lparr>cwd_data_csv = None,
           raw_data_csv = Some [\<lparr>row_smiles = ''CCO'', row_labels = 1\<rparr>,
                                \<lparr>row_smiles = ''C1CC'', row_labels = 0\<rparr>],
           processed_data_pt = None\<rparr> =
        (Some e,
          \<lparr>cwd_data_csv = None,
           raw_data_csv = Some [\<lparr>row_smiles = ''CCO'', row_labels = 1\<rparr>,
                                \<lparr>row_smiles = ''C1CC'', row_labels = 0\<rparr>],
           processed_data_pt = None\<rparr>)"
proof -
  let ?bad = "\<lparr>row_smiles = ''C1CC'', row_labels = 0\<rparr>"
  let ?df = "[\<lparr>row_smiles = ''CCO'', row_labels = 1\<rparr>, ?bad]"
  let ?fs = "\<lparr>cwd_data_csv = None, raw_data_csv = Some ?df, processed_data_pt = None\<rparr>"
  have bad: "process_row example_toolkit True ?bad = Inl AttributeError"
    by (rule process_row_unparseable) simp
  have "raw_data_csv ?fs = Some ?df \<and> ?bad \<in> set ?df \<and>
        process_row example_toolkit True ?bad = Inl AttributeError"
    using bad by simp
  then show ?thesis
    using conversion_all_or_nothing[of example_toolkit True ?fs] by blast
qed

text \<open>
  C7. If the structure string of some row of the table does not parse, that row raises
  \<open>AttributeError\<close>, and \<open>process\<close> ends with an exception for the whole table and leaves
  the files untouched. The exception is the one of the first row that raises: it is
  \<open>AttributeError\<close>, unless an earlier row parsed and has a label outside the 64-bit
  integers, which raises \<open>RuntimeError\<close>; with all labels in range it is \<open>AttributeError\<close>.
  A construction that has to process ends with the same exception: no record is returned
  for any row.
\<close>

theorem unparseable_row_aborts:
  assumes "argsort_spec (argsort tk)" "raw_data_csv fs = Some df" "r \<in> set df"
    "MolFromSmiles tk (row_smiles r) = None"
  shows "process_row tk c r = Inl AttributeError \<and>
         (\<exists>e. process tk c fs = (Some e, fs) \<and>
              (e = AttributeError \<or> e = RuntimeError) \<and>
              ((\<forall>r'\<in>set df. fits_int64 (row_labels r')) \<longrightarrow> e = AttributeError) \<and>
              (processed_data_pt fs = None \<longrightarrow> MyDataset_init tk c fs = (Inl e, fs)))"
proof -
  have r: "process_row tk c r = Inl AttributeError"
    using assms(4) by (rule process_row_unparseable)
  obtain e where e: "convert_rows tk c df = Inl e"
    using convert_rows_fails[OF assms(3) r] by blast
  have kind: "e = AttributeError \<or> (e = RuntimeError \<and> (\<exists>r'\<in>set df. \<not> fits_int64 (row_labels r')))"
    using convert_rows_error_kind[OF assms(1) e] .
  have p: "process tk c fs = (Some e, fs)"
    using e assms(2) by (simp add: process_eq)
  have i: "processed_data_pt fs = None \<longrightarrow> MyDataset_init tk c fs = (Inl e, fs)"
    using p assms(2) by (simp add: MyDataset_init_def)
  have k1: "e = AttributeError \<or> e = RuntimeError" using kind by auto
  have k2: "(\<forall>r'\<in>set df. fits_int64 (row_labels r')) \<longrightarrow> e = AttributeError"
    using kind by auto
  show ?thesis
    by (intro conjI exI[of _ e]) (rule r p k1 k2 i)+
qed

theorem unparseable_row_aborts_witness:
  "process example_toolkit False
          \<lparr>cwd_data_csv = None,
           raw_data_csv = Some [\<lparr>row_smiles = ''CCO'', row_labels = 1\<rparr>,
                                \<lparr>row_smiles = ''C1CC'', row_labels = 0\<rparr>,
                                \<lparr>row_smiles = ''O'', row_labels = 0\<rparr>],
           processed_data_pt = None\<rparr> =
        (Some AttributeError,
          \<lparr>cwd_data_csv = None,
           raw_data_csv = Some [\<lparr>row_smiles = ''CCO'', row_labels = 1\<rparr>,
                                \<lparr>row_smiles = ''C1CC'', row_labels = 0\<rparr>,
                                \<lparr>row_smiles = ''O'', row_labels = 0\<rparr>],
           processed_data_pt = None\<rparr>) \<and>
   MyDataset_init example_toolkit False
          \<lparr>cwd_data_csv = None,
           raw_data_csv = Some [\<lparr>row_smiles = ''CCO'', row_labels = 1\<rparr>,
                                \<lparr>row_smiles = ''C1CC'', row_labels = 0\<rparr>,
                                \<lparr>row_smiles = ''O'', row_labels = 0\<rparr>],
           processed_data_pt = None\<rparr> =
        (Inl AttributeError,
          \<lparr>cwd_data_csv = None,
           raw_data_csv = Some [\<lparr>row_smiles = ''CCO'', row_labels = 1\<rparr>,
                                \<lparr>row_smiles = ''C1CC'', row_labels = 0\<rparr>,
                                \<lparr>row_smiles = ''O'', row_labels = 0\<rparr>],
           processed_data_pt = None\<rparr>)"
proof -
  let ?bad = "\<lparr>row_smiles = ''C1CC'', row_labels = 0\<rparr>"
  let ?df = "[\<lparr>row_smiles = ''CCO'', row_labels = 1\<rparr>, ?bad, \<lparr>row_smiles = ''O'', row_labels = 0\<rparr>]"
  let ?fs = "\<lparr>cwd_data_csv = None, raw_data_csv = Some ?df, processed_data_pt = None\<rparr>"
  have 1: "raw_data_csv ?fs = Some ?df" by simp
  have 2: "?bad \<in> set ?df" by simp
  have 3: "MolFromSmiles example_toolkit (row_smiles ?bad) = None" by simp
  have 4: "\<forall>r'\<in>set ?df. fits_int64 (row_labels r')" by simp
  have 5: "processed_data_pt ?fs = None" by simp
  from unparseable_row_aborts[OF example_argsort 1 2 3, of False] show ?thesis
    apply (elim exE conjE)
    apply (erule impE, rule 4)
    apply (erule impE, rule 5)
    apply hypsubst
    apply (intro conjI)
     apply assumption
    apply assumption
    done
qed

text \<open>
  C5, as amended. If the processed file exists, and the raw file exists or \<open>data.csv\<close> is
  in the working directory to be copied, the constructor returns the cached collection
  unchanged, whatever it holds, and writes at most the raw copy. The result does not depend
  on the toolkit or the flag, so neither the parser nor the conversion is involved, and a
  second construction returns the same collection and changes nothing.
\<close>

theorem cached_collection_returned:
  assumes "processed_data_pt fs = Some collection"
    and "raw_data_csv fs \<noteq> None \<or> cwd_data_csv fs \<noteq> None"
  shows "MyDataset_init tk create_edge_attr fs =
           (Inr collection, if raw_data_csv fs = None then fs\<lparr>raw_data_csv := cwd_data_csv fs\<rparr> else fs) \<and>
         MyDataset_init tk' create_edge_attr' (snd (MyDataset_init tk create_edge_attr fs)) =
           (Inr collection, snd (MyDataset_init tk create_edge_attr fs))"
proof -
  have first: "MyDataset_init tk create_edge_attr fs =
           (Inr collection, if raw_data_csv fs = None then fs\<lparr>raw_data_csv := cwd_data_csv fs\<rparr> else fs)"
    using assms by (auto simp: MyDataset_init_def download_def split: option.splits)
  have "raw_data_csv (snd (MyDataset_init tk create_edge_attr fs)) \<noteq> None"
    and "processed_data_pt (snd (MyDataset_init tk create_edge_attr fs)) = Some collection"
    using assms by (auto simp: first)
  then have "MyDataset_init tk' create_edge_attr' (snd (MyDataset_init tk create_edge_attr fs)) =
           (Inr collection, snd (MyDataset_init tk create_edge_attr fs))"
    by (auto simp: MyDataset_init_def)
  with first show ?thesis by blast
qed

theorem cached_collection_returned_witness:
  "MyDataset_init example_toolkit True
     \<lparr>cwd_data_csv = None, raw_data_csv = Some [\<lparr>row_smiles = ''C1CC'', row_labels = 0\<rparr>],
      processed_data_pt = Some []\<rparr> =
   (Inr [], \<lparr>cwd_data_csv = None, raw_data_csv = Some [\<lparr>row_smiles = ''C1CC'', row_labels = 0\<rparr>],
      processed_data_pt = Some []\<rparr>)"
  using cached_collection_returned[of
      "\<lparr>cwd_data_csv = None, raw_data_csv = Some [\<lparr>row_smiles = ''C1CC'', row_labels = 0\<rparr>],
        processed_data_pt = Some []\<rparr>" "[]" example_toolkit True example_toolkit True]
  by simp

text \<open>
  C5 as stated fails: with the processed file present but neither the raw file nor
  \<open>data.csv\<close> in the working directory, the constructor calls \<open>download\<close> first, whose
  copy raises \<open>FileNotFoundError\<close>, and the cache is never loaded.
\<close>

theorem cached_collection_not_returned:
  "MyDataset_init example_toolkit True
     \<lparr>cwd_data_csv = None, raw_data_csv = None, processed_data_pt = Some []\<rparr> =
   (Inl FileNotFoundError,
     \<lparr>cwd_data_csv = None, raw_data_csv = None, processed_data_pt = Some []\<rparr>)"
  by (simp add: MyDataset_init_def download_def)

lemma one_atom_no_bonds:
  assumes "wf_mol m" "GetNumAtoms m = 1"
  shows "GetBonds m = []"
proof (cases "GetBonds m")
  case Nil
  then show ?thesis .
next
  case (Cons b bs)
  then have "GetBeginAtomIdx b < 1 \<and> GetEndAtomIdx b < 1 \<and> GetBeginAtomIdx b \<noteq> GetEndAtomIdx b"
    using assms by (auto simp: wf_mol_def)
  then have False by linarith
  then show ?thesis ..
qed

lemma no_bonds_no_edges:
  assumes "argsort_spec (argsort tk)" "MolFromSmiles tk (row_smiles r) = Some m" "GetBonds m = []"
    "fits_int64 (row_labels r)"
  shows "\<exists>d. process_row tk c r = Inr d \<and> data_x d = map feature_row (GetAtoms m) \<and>
             data_edge_index d = [[], []] \<and> data_y d = [[row_labels r]]"
proof (cases c)
  case True
  obtain perm where perm: "mset perm = mset [0..<length (bond_pairs (GetBonds m))]"
    and row: "process_row tk True r =
       Inr \<lparr>data_x = map feature_row (GetAtoms m),
            data_edge_index = as_edge_index (map ipair (map (\<lambda>p. bond_pairs (GetBonds m) ! p) perm)),
            data_y = [[row_labels r]], data_smiles = row_smiles r,
            data_edge_attr = Some (unsqueeze1 (map (\<lambda>p. bond_codes (GetBonds m) ! p) perm))\<rparr>"
    using edges_ok[OF assms(1,2,4)] by blast
  have "perm = []" using perm assms(3) by (simp add: bond_pairs_def)
  then show ?thesis using row True by (simp add: as_edge_index_def)
next
  case False
  have "\<not> bonded m i j" for i j using assms(3) by (simp add: bonded_def)
  then have "nonzero (GetAdjacencyMatrix m) = []"
    by (simp add: nonzero_adjacency)
  then show ?thesis
    using False process_row_without_attr[OF assms(2,4)] by (simp add: dense_to_sparse_def)
qed

text \<open>
  C8. For the table with the rows (\<open>CCO\<close>, 1) and (\<open>O\<close>, 0), a parser that gives a
  three-atom molecule for \<open>CCO\<close> and a well-formed one-atom molecule for \<open>O\<close>, and no
  cache yet, the constructor writes and returns a collection of two records: record 0 has
  a node-feature table of shape [3,5] and label 1, record 1 one of shape [1,5], label 0
  and an edge index with no entries. This holds in both edge modes.
\<close>

theorem ethanol_water_scenario:
  assumes "argsort_spec (argsort tk)"
    and "MolFromSmiles tk ''CCO'' = Some m0" "GetNumAtoms m0 = 3"
    and "MolFromSmiles tk ''O'' = Some m1" "GetNumAtoms m1 = 1" "wf_mol m1"
    and "raw_data_csv fs = Some [\<lparr>row_smiles = ''CCO'', row_labels = 1\<rparr>,
                                 \<lparr>row_smiles = ''O'', row_labels = 0\<rparr>]"
    and "processed_data_pt fs = None"
  shows "\<exists>d0 d1. MyDataset_init tk create_edge_attr fs =
                    (Inr [d0, d1], fs\<lparr>processed_data_pt := Some [d0, d1]\<rparr>) \<and>
           length (data_x d0) = 3 \<and> (\<forall>v\<in>set (data_x d0). length v = 5) \<and> data_y d0 = [[1]] \<and>
           length (data_x d1) = 1 \<and> (\<forall>v\<in>set (data_x d1). length v = 5) \<and> data_y d1 = [[0]] \<and>
           data_edge_index d1 = [[], []]"
proof -
  let ?r0 = "\<lparr>row_smiles = ''CCO'', row_labels = 1\<rparr>" and ?r1 = "\<lparr>row_smiles = ''O'', row_labels = 0\<rparr>"
  have p0: "MolFromSmiles tk (row_smiles ?r0) = Some m0" using assms(2) by simp
  have p1: "MolFromSmiles tk (row_smiles ?r1) = Some m1" using assms(4) by simp
  have l0: "fits_int64 (row_labels ?r0)" and l1: "fits_int64 (row_labels ?r1)" by simp_all
  obtain d0 where d0: "process_row tk create_edge_attr ?r0 = Inr d0"
    and x0: "data_x d0 = map feature_row (GetAtoms m0)" and y0: "data_y d0 = [[1]]"
  proof (cases create_edge_attr)
    case True
    obtain perm where
      "process_row tk True ?r0 =
         Inr \<lparr>data_x = map feature_row (GetAtoms m0),
              data_edge_index = as_edge_index (map ipair (map (\<lambda>p. bond_pairs (GetBonds m0) ! p) perm)),
              data_y = [[row_labels ?r0]], data_smiles = row_smiles ?r0,
              data_edge_attr = Some (unsqueeze1 (map (\<lambda>p. bond_codes (GetBonds m0) ! p) perm))\<rparr>"
      using edges_ok[OF assms(1) p0 l0] by blast
    then show ?thesis using True that by simp
  next
    case False
    then show ?thesis using process_row_without_attr[OF p0 l0] that by simp
  qed
  obtain d1 where d1: "process_row tk create_edge_attr ?r1 = Inr d1"
    and x1: "data_x d1 = map feature_row (GetAtoms m1)" and y1: "data_y d1 = [[0]]"
    and e1: "data_edge_index d1 = [[], []]"
    using no_bonds_no_edges[OF assms(1) p1 one_atom_no_bonds[OF assms(6,5)] l1, of create_edge_attr]
    by auto
  have "convert_rows tk create_edge_attr [?r0, ?r1] = Inr [d0, d1]"
    using d0 d1 by (simp add: andthen_def)
  then have "process tk create_edge_attr fs = (None, fs\<lparr>processed_data_pt := Some [d0, d1]\<rparr>)"
    using assms(7) by (simp add: process_eq)
  then have init: "MyDataset_init tk create_edge_attr fs =
                    (Inr [d0, d1], fs\<lparr>processed_data_pt := Some [d0, d1]\<rparr>)"
    using assms(7,8) by (simp add: MyDataset_init_def)
  have s0: "length (data_x d0) = 3 \<and> (\<forall>v\<in>set (data_x d0). length v = 5)"
    using x0 assms(3) by (simp add: GetNumAtoms_def feature_row_def)
  have s1: "length (data_x d1) = 1 \<and> (\<forall>v\<in>set (data_x d1). length v = 5)"
    using x1 assms(5) by (simp add: GetNumAtoms_def feature_row_def)
  show ?thesis using init s0 s1 y0 y1 e1 by blast
qed

theorem ethanol_water_scenario_witness:
  "\<exists>d0 d1. MyDataset_init example_toolkit True
       \<lparr>cwd_data_csv = None,
        raw_data_csv = Some [\<lparr>row_smiles = ''CCO'', row_labels = 1\<rparr>,
                             \<lparr>row_smiles = ''O'', row_labels = 0\<rparr>],
        processed_data_pt = None\<rparr> =
      (Inr [d0, d1],
       \<lparr>cwd_data_csv = None,
        raw_data_csv = Some [\<lparr>row_smiles = ''CCO'', row_labels = 1\<rparr>,
                             \<lparr>row_smiles = ''O'', row_labels = 0\<rparr>],
        processed_data_pt = Some [d0, d1]\<rparr>) \<and>
      length (data_x d0) = 3 \<and> length (data_x d1) = 1 \<and> data_edge_index d1 = [[], []]"
proof -
  let ?fs = "\<lparr>cwd_data_csv = None,
        raw_data_csv = Some [\<lparr>row_smiles = ''CCO'', row_labels = 1\<rparr>,
                             \<lparr>row_smiles = ''O'', row_labels = 0\<rparr>],
        processed_data_pt = None\<rparr>"
  have n0: "GetNumAtoms ethanol = 3" and n1: "GetNumAtoms water = 1"
    by (simp_all add: GetNumAtoms_def ethanol_def water_def)
  have r: "raw_data_csv ?fs = Some [\<lparr>row_smiles = ''CCO'', row_labels = 1\<rparr>,
                             \<lparr>row_smiles = ''O'', row_labels = 0\<rparr>]"
    and p: "processed_data_pt ?fs = None" by simp_all
  from ethanol_water_scenario[OF example_argsort example_parse(1) n0 example_parse(2) n1 wf_water r p,
      of True]
  show ?thesis
    apply (elim exE conjE)
    apply (intro exI conjI)
       apply simp
      apply assumption
     apply assumption
    apply assumption
    done
qed

section \<open>The split of the training cell\<close>

lemma round_to_53_bits_window:
  assumes lo: "k * 2 ^ 52 \<le> p" and hi: "5 * p < 5 * k * 2 ^ 52 + 17 * 2 ^ 50" and big: "p < 2 ^ 102"
  shows "k * 2 ^ 52 \<le> round_to_53_bits p \<and> round_to_53_bits p < (k + 1) * 2 ^ 52"
proof (cases "floorlog 2 p \<le> 53")
  case True
  then have "round_to_53_bits p = p" by (simp add: round_to_53_bits_def)
  then show ?thesis using lo hi by simp
next
  case False
  define s where "s = floorlog 2 p - 53"
  define q where "q = p div 2 ^ s"
  define r where "r = p mod 2 ^ s"
  define up where "up \<longleftrightarrow> 2 ^ s < 2 * r \<or> (2 * r = 2 ^ s \<and> odd q)"
  have R: "round_to_53_bits p = (if up then q + 1 else q) * 2 ^ s"
    using False by (simp add: round_to_53_bits_def Let_def s_def q_def r_def up_def)
  have "floorlog 2 p \<le> 102" using big by (intro floorlog_leI) simp_all
  then have s49: "s \<le> 49" and s1: "1 \<le> s" using False by (simp_all add: s_def)
  have p: "p = q * 2 ^ s + r" unfolding q_def r_def by (rule div_mult_mod_eq[symmetric])
  have pow: "(2::nat) ^ 52 = 2 ^ (52 - s) * 2 ^ s"
    using s49 by (simp flip: power_add)
  have e: "k * 2 ^ 52 = k * 2 ^ (52 - s) * 2 ^ s" by (subst pow) (simp only: mult.assoc)
  have "k * 2 ^ (52 - s) * 2 ^ s \<le> p" using lo by (simp only: e)
  then have "k * 2 ^ (52 - s) \<le> q"
    unfolding q_def by (simp add: less_eq_div_iff_mult_less_eq)
  then have "k * 2 ^ (52 - s) * 2 ^ s \<le> q * 2 ^ s" by (rule mult_le_mono1)
  then have low_q: "k * 2 ^ 52 \<le> q * 2 ^ s" by (simp only: e)
  have two_s: "(2::nat) ^ s \<le> 2 ^ 49" using s49 by (intro power_increasing) simp_all
  have upper: "2 * round_to_53_bits p \<le> 2 * p + 2 ^ 49"
  proof (cases up)
    case True
    then have "2 ^ s \<le> 2 * r" by (auto simp: up_def)
    moreover have "2 * round_to_53_bits p = 2 * (q * 2 ^ s) + 2 * 2 ^ s"
      using True R by (simp add: algebra_simps)
    ultimately show ?thesis using p two_s by linarith
  next
    case False
    then have "round_to_53_bits p = q * 2 ^ s" using R by simp
    then show ?thesis using p by simp
  qed
  have lower: "k * 2 ^ 52 \<le> round_to_53_bits p"
  proof -
    have "q * 2 ^ s \<le> round_to_53_bits p" using R by (simp add: algebra_simps)
    then show ?thesis using low_q by linarith
  qed
  have "10 * round_to_53_bits p \<le> 10 * p + 5 * 2 ^ 49" using upper by linarith
  then have "10 * round_to_53_bits p < 10 * ((k + 1) * 2 ^ 52)" using hi by simp
  then show ?thesis using lower by simp
qed

lemma split_index_exact:
  assumes "n < 2 ^ 50"
  shows "split_index n = 4 * n div 5"
proof -
  define k where "k = 4 * n div 5"
  define p where "p = n * 3602879701896397"
  have m: "4 * n = 5 * k + 4 * n mod 5" by (simp add: k_def)
  have m4: "4 * n mod 5 \<le> 4" by simp
  have five: "5 * p = 4 * n * 2 ^ 52 + n" by (simp add: p_def)
  have lo: "k * 2 ^ 52 \<le> p"
  proof -
    have "5 * (k * 2 ^ 52) \<le> 4 * n * 2 ^ 52" using m by simp
    then show ?thesis using five by linarith
  qed
  have hi: "5 * p < 5 * k * 2 ^ 52 + 17 * 2 ^ 50"
  proof -
    have "4 * n \<le> 5 * k + 4" using m m4 by linarith
    then have "4 * n * 2 ^ 52 \<le> (5 * k + 4) * 2 ^ 52" by (rule mult_le_mono1)
    then show ?thesis using five assms by simp
  qed
  have big: "p < 2 ^ 102"
  proof -
    have "p < 2 ^ 50 * 3602879701896397" using assms by (simp add: p_def)
    also have "\<dots> \<le> 2 ^ 102" by simp
    finally show ?thesis .
  qed
  have w: "k * 2 ^ 52 \<le> round_to_53_bits p \<and> round_to_53_bits p < (k + 1) * 2 ^ 52"
    using lo hi big by (rule round_to_53_bits_window)
  have d: "round_to_53_bits p div 2 ^ 52 = k"
    using w by (intro div_nat_eqI) (simp_all add: mult.commute)
  have "times_point_8 n = of_nat (round_to_53_bits p) / of_nat (2 ^ 52)"
    by (simp add: times_point_8_def p_def)
  then have "\<lfloor>times_point_8 n\<rfloor> = int (round_to_53_bits p div 2 ^ 52)"
    by (simp only: floor_divide_of_nat_eq)
  moreover have "0 \<le> times_point_8 n" by (simp add: times_point_8_def)
  ultimately have "py_int (times_point_8 n) = int k" using d by (simp add: py_int_def)
  then show ?thesis by (simp add: split_index_def k_def)
qed

lemma floor_point_8: "nat \<lfloor>(8 / 10 :: rat) * of_nat n\<rfloor> = 4 * n div 5"
proof -
  have "(8 / 10 :: rat) * of_nat n = of_nat (4 * n) / of_nat 5" by simp
  then have "\<lfloor>(8 / 10 :: rat) * of_nat n\<rfloor> = int (4 * n div 5)"
    by (simp only: floor_divide_of_nat_eq)
  then show ?thesis by simp
qed

text \<open>
  C9. For a dataset of n records (n below \<open>2 ^ 50\<close>) shuffled by a permutation of its
  positions, the training set is the first \<open>floor (0.8 * n)\<close> records of the shuffled and
  recast sequence, the test set the remaining \<open>n - floor (0.8 * n)\<close>, and the two
  concatenated are that sequence, which holds the records of the dataset, each once. The
  product of doubles in the notebook gives exactly \<open>floor (0.8 * n)\<close> for these n.
\<close>

theorem shuffle_split_80_20:
  assumes "mset randperm = mset [0..<length dataset]" "length dataset < 2 ^ 50"
  shows "\<exists>shuffled train test.
           index_select dataset randperm = Inr shuffled \<and> mset shuffled = mset dataset \<and>
           shuffle_and_split randperm cast dataset = Inr (train, test) \<and>
           train = take (nat \<lfloor>(8 / 10 :: rat) * of_nat (length dataset)\<rfloor>) (map cast shuffled) \<and>
           test = drop (nat \<lfloor>(8 / 10 :: rat) * of_nat (length dataset)\<rfloor>) (map cast shuffled) \<and>
           length train = nat \<lfloor>(8 / 10 :: rat) * of_nat (length dataset)\<rfloor> \<and>
           length test = length dataset - nat \<lfloor>(8 / 10 :: rat) * of_nat (length dataset)\<rfloor> \<and>
           train @ test = map cast shuffled"
proof -
  define shuffled where "shuffled = map (\<lambda>p. dataset ! p) randperm"
  define cut where "cut = 4 * length dataset div 5"
  have sp: "set randperm \<subseteq> {0..<length dataset}"
    using mset_eq_setD[OF assms(1)] by simp
  have sel: "index_select dataset randperm = Inr shuffled"
    unfolding shuffled_def using sp by (rule index_select_ok)
  have ms: "mset shuffled = mset dataset"
    unfolding shuffled_def using assms(1) by (rule mset_permuted)
  have len: "length shuffled = length dataset"
    using ms by (rule mset_eq_length)
  have cut: "split_index (length (map cast shuffled)) = cut"
    using assms(2) len by (simp add: split_index_exact cut_def)
  have fl: "nat \<lfloor>(8 / 10 :: rat) * of_nat (length dataset)\<rfloor> = cut"
    unfolding cut_def by (rule floor_point_8)
  have res: "shuffle_and_split randperm cast dataset =
             Inr (take cut (map cast shuffled), drop cut (map cast shuffled))"
    using sel cut by (simp add: shuffle_and_split_def andthen_def train_set_def test_set_def Let_def)
  have le: "cut \<le> length dataset" by (simp add: cut_def)
  have "length (take cut (map cast shuffled)) = cut" using le len by simp
  moreover have "length (drop cut (map cast shuffled)) = length dataset - cut" using len by simp
  moreover have "take cut (map cast shuffled) @ drop cut (map cast shuffled) = map cast shuffled"
    by (rule append_take_drop_id)
  ultimately show ?thesis
    unfolding fl using sel ms res by blast
qed

theorem shuffle_split_80_20_witness:
  "shuffle_and_split [4, 2, 0, 1, 3] (\<lambda>g. g) [''a'', ''b'', ''c'', ''d'', ''e''] =
     Inr ([''e'', ''c'', ''a'', ''b''], [''d''])"
proof -
  have 1: "mset [4, 2, 0, 1, 3] = mset [0..<length [''a'', ''b'', ''c'', ''d'', ''e'']]"
    by (simp add: upt_rec eval_nat_numeral add_mset_commute)
  have 2: "length [''a'', ''b'', ''c'', ''d'', ''e''] < 2 ^ 50" by simp
  have 3: "index_select [''a'', ''b'', ''c'', ''d'', ''e''] [4, 2, 0, 1, 3] = Inr [''e'', ''c'', ''a'', ''b'', ''d'']"
    by (simp add: index_select_def)
  have 4: "nat \<lfloor>(8 / 10 :: rat) * of_nat (length [''a'', ''b'', ''c'', ''d'', ''e''])\<rfloor> = 4"
    by simp
  from shuffle_split_80_20[OF 1 2, of "\<lambda>g. g"] show ?thesis
    unfolding 3 4 by (elim exE conjE) auto
qed

end
